theory Spec2Isabelle
  imports
    Complex_Main
    "HOL-Library.Char_ord"
    "HOL-Library.List_Lexorder"
    "HOL-Library.Log_Nat"
    "HOL-Library.Multiset"
begin

section \<open>Data model\<close>

text \<open>
  A \<open>pathlib\<close> path is its sequence of parts; \<open>d / 'imagesTr'\<close> appends one part.
  Paths compare by their parts, part by part, and strings compare character by
  character: that is the order of \<open>HOL-Library.List_Lexorder\<close> over
  \<open>HOL-Library.Char_ord\<close>.
\<close>

type_synonym path = "string list"

datatype error = TypeError | ValueError | KeyError | RuntimeError | OverflowError | DownloadError

text \<open>
  A file system, as far as the data module looks at it: a directory maps to the names
  of its entries (in whatever order the operating system lists them), anything else
  to \<open>None\<close>.
\<close>

type_synonym filesystem = "path \<rightharpoonup> string list"

definition is_dir :: "filesystem \<Rightarrow> path \<Rightarrow> bool" where
  "is_dir fs d = (fs d \<noteq> None)"

text \<open>
  \<open>tio.ScalarImage(path)\<close> and \<open>tio.LabelMap(path)\<close> are lazy references to a
  volume on disk. \<open>tio.Subject(image=..., label=...)\<close> is a dictionary from the role
  name to the image.
\<close>

datatype image = ScalarImage path | LabelMap path

type_synonym subject = "string \<rightharpoonup> image"

section \<open>Subject indexer\<close>

text \<open>\<open>s.startswith(p)\<close> of Python strings.\<close>

definition startswith :: "string \<Rightarrow> string \<Rightarrow> bool" where
  "startswith s p = (take (length p) s = p)"

text \<open>
  The glob pattern \<open>*.nii*\<close> matches a name that has \<open>.nii\<close> somewhere in it:
  each \<open>*\<close> stands for any run of characters, the empty one and a leading dot
  included.
\<close>

fun contains_str :: "string \<Rightarrow> string \<Rightarrow> bool" where
  "contains_str [] p = (p = [])"
| "contains_str (c # cs) p = (startswith (c # cs) p \<or> contains_str cs p)"

definition fnmatch_nii :: "string \<Rightarrow> bool" where
  "fnmatch_nii name = contains_str name ''.nii''"

text \<open>\<open>d.glob('*.nii*')\<close>: the entries of \<open>d\<close> whose name matches, as paths below \<open>d\<close>;
  nothing when \<open>d\<close> is not a directory.\<close>

definition glob_nii :: "filesystem \<Rightarrow> path \<Rightarrow> path list" where
  "glob_nii fs d =
     (case fs d of
        None \<Rightarrow> []
      | Some names \<Rightarrow> map (\<lambda>n. d @ [n]) (filter fnmatch_nii names))"

text \<open>\<open>p.name\<close>: the last part of a path (the empty string for a path without parts).\<close>

definition path_name :: "path \<Rightarrow> string" where
  "path_name p = (case rev p of [] \<Rightarrow> [] | n # _ \<Rightarrow> n)"

text \<open>
  \<^verbatim>\<open>
  def get_niis(d):
      return sorted(p for p in d.glob('*.nii*') if not p.name.startswith('.'))
  \<close>
\<close>

definition get_niis :: "filesystem \<Rightarrow> path \<Rightarrow> path list" where
  "get_niis fs d = sort (filter (\<lambda>p. \<not> startswith (path_name p) ''.'') (glob_nii fs d))"

section \<open>Transforms and datasets\<close>

type_synonym shape = "nat \<times> nat \<times> nat"

text \<open>
  The transforms the data module builds, as the constructor calls of the source:
  a probability \<open>p\<close> is kept as a rational number.
\<close>

datatype transform =
    RescaleIntensity int int
  | CropOrPad shape
  | EnsureShapeMultiple nat
  | OneHot
  | RandomAffine
  | RandomGamma rat
  | RandomNoise rat
  | RandomMotion rat
  | RandomBiasField rat
  | Compose "transform list"

text \<open>\<open>torch.utils.data.Subset(dataset, indices)\<close>: item \<open>k\<close> is \<open>dataset[indices[k]]\<close>.\<close>

record 'a subset =
  dataset :: "'a list"
  indices :: "nat list"

definition subset_items :: "'a subset \<Rightarrow> 'a list" where
  "subset_items s = map (\<lambda>i. dataset s ! i) (indices s)"

text \<open>\<open>tio.SubjectsDataset(subjects, transform=t)\<close>: the subjects in their order, and
  the one transform applied to each of them when it is read.\<close>

record subjects_dataset =
  ds_subjects :: "subject list"
  ds_transform :: "transform option"

section \<open>The data module\<close>

record datamodule =
  task :: string
  google_id :: string
  batch_size :: int
  dataset_dir :: path
  train_val_ratio :: rat
  subjects :: "subject list option"
  test_subjects :: "subject list option"
  preprocess :: "transform option"
  transform :: "transform option"
  train_set :: "subjects_dataset option"
  val_set :: "subjects_dataset option"
  test_set :: "subjects_dataset option"

text \<open>\<open>MedicalDecathlonDataModule.__init__\<close>; \<open>Path(task)\<close> of a plain directory name
  has that name as its only part.\<close>

definition init :: "string \<Rightarrow> string \<Rightarrow> int \<Rightarrow> rat \<Rightarrow> datamodule" where
  "init task' google_id' batch_size' train_val_ratio' =
     \<lparr> task = task', google_id = google_id', batch_size = batch_size',
       dataset_dir = [task'], train_val_ratio = train_val_ratio',
       subjects = None, test_subjects = None, preprocess = None, transform = None,
       train_set = None, val_set = None, test_set = None \<rparr>"

text \<open>
  \<open>download_data\<close>. When the dataset directory is missing, the archive is fetched and
  unpacked: \<open>fetch url output fs\<close> stands for \<open>gdown.download\<close> followed by \<open>tar xf\<close>,
  which either fails or leaves a changed file system. The three listings are then
  read from the file system as it is.
\<close>

definition download_data ::
  "(string \<Rightarrow> string \<Rightarrow> filesystem \<Rightarrow> error + filesystem) \<Rightarrow> datamodule \<Rightarrow> filesystem
     \<Rightarrow> error + ((path list \<times> path list \<times> path list) \<times> filesystem)" where
  "download_data fetch dm fs =
     (case (if \<not> is_dir fs (dataset_dir dm)
            then fetch (''https://drive.google.com/uc?id='' @ google_id dm) (task dm @ ''.tar'') fs
            else Inr fs) of
        Inl e \<Rightarrow> Inl e
      | Inr fs' \<Rightarrow>
          Inr ((get_niis fs' (dataset_dir dm @ [''imagesTr'']),
                get_niis fs' (dataset_dir dm @ [''labelsTr'']),
                get_niis fs' (dataset_dir dm @ [''imagesTs''])), fs'))"

text \<open>The two loops of \<open>prepare_data\<close>: each starts from the empty list and appends
  one subject per step to the list the field holds.\<close>

definition training_subject :: "path \<Rightarrow> path \<Rightarrow> subject" where
  "training_subject image_path label_path =
     [''image'' \<mapsto> ScalarImage image_path, ''label'' \<mapsto> LabelMap label_path]"

definition test_subject :: "path \<Rightarrow> subject" where
  "test_subject image_path = [''image'' \<mapsto> ScalarImage image_path]"

definition prepare_data ::
  "(string \<Rightarrow> string \<Rightarrow> filesystem \<Rightarrow> error + filesystem) \<Rightarrow> datamodule \<Rightarrow> filesystem
     \<Rightarrow> error + (datamodule \<times> filesystem)" where
  "prepare_data fetch dm fs =
     (case download_data fetch dm fs of
        Inl e \<Rightarrow> Inl e
      | Inr ((image_training_paths, label_training_paths, image_test_paths), fs') \<Rightarrow>
          let dm1 = dm\<lparr>subjects := Some []\<rparr>;
              dm2 = foldl (\<lambda>d (image_path, label_path).
                             d\<lparr>subjects := map_option (\<lambda>xs. xs @ [training_subject image_path label_path])
                                                     (subjects d)\<rparr>)
                          dm1 (zip image_training_paths label_training_paths);
              dm3 = dm2\<lparr>test_subjects := Some []\<rparr>;
              dm4 = foldl (\<lambda>d image_path.
                             d\<lparr>test_subjects := map_option (\<lambda>xs. xs @ [test_subject image_path])
                                                          (test_subjects d)\<rparr>)
                          dm3 image_test_paths
          in Inr (dm4, fs'))"

text \<open>Consecutive calls of \<open>prepare_data\<close>, each on the data module and the file system
  the call before left; the first failure ends the run.\<close>

fun prepare_data_calls ::
  "(string \<Rightarrow> string \<Rightarrow> filesystem \<Rightarrow> error + filesystem) \<Rightarrow> nat \<Rightarrow> datamodule \<Rightarrow> filesystem
     \<Rightarrow> error + (datamodule \<times> filesystem)" where
  "prepare_data_calls fetch 0 dm fs = Inr (dm, fs)"
| "prepare_data_calls fetch (Suc n) dm fs =
     (case prepare_data fetch dm fs of
        Inl e \<Rightarrow> Inl e
      | Inr (dm', fs') \<Rightarrow> prepare_data_calls fetch n dm' fs')"

section \<open>Split allocator\<close>

text \<open>
  Python's \<open>round(x)\<close> with one argument, on the value of a float: the nearest
  integer, a tie going to the even one.
\<close>

definition py_round :: "rat \<Rightarrow> int" where
  "py_round x =
     (let f = \<lfloor>x\<rfloor>; d = x - of_int f
      in if d < 1 / 2 then f else if 1 / 2 < d then f + 1 else if even f then f else f + 1)"

text \<open>
  A finite Python \<open>float\<close> is an IEEE 754 double; it is modelled by the rational number
  it denotes. \<open>exponent a\<close> is the binary exponent of a positive number, the \<open>e\<close> with
  \<open>2 ^ e \<le> a < 2 ^ (e + 1)\<close>. \<open>round_to_double x\<close> is the double nearest to \<open>x\<close>, a tie
  going to the even mantissa: doubles with exponent \<open>e\<close> are the multiples of
  \<open>2 ^ (e - 52)\<close>, and below \<open>2 ^ (- 1022)\<close> the multiples of \<open>2 ^ (- 1074)\<close>. A result of
  magnitude \<open>2 ^ 1024\<close> or more is no finite double: converting such an integer to a
  float raises \<open>OverflowError\<close>, and so does \<open>round\<close> on the infinite product.
\<close>

definition exponent :: "rat \<Rightarrow> int" where
  "exponent a = (if 1 \<le> a then bitlen \<lfloor>a\<rfloor> - 1 else - bitlen (\<lceil>1 / a\<rceil> - 1))"

definition round_to_double :: "rat \<Rightarrow> rat" where
  "round_to_double x =
     (if x = 0 then 0
      else let q = power_int 2 (max (exponent \<bar>x\<bar>) (- 1022) - 52)
           in of_int (py_round (x / q)) * q)"

definition float_result :: "rat \<Rightarrow> error + rat" where
  "float_result x =
     (let y = round_to_double x in if 2 ^ 1024 \<le> \<bar>y\<bar> then Inl OverflowError else Inr y)"

text \<open>
  Line 145, \<open>int(round(num_subjects * self.train_val_ratio))\<close>, with a float ratio:
  the number of subjects is converted to a float, the product is rounded to a float,
  and \<open>round\<close> takes the float to the nearest integer.
\<close>

definition num_train_subjects :: "nat \<Rightarrow> rat \<Rightarrow> error + int" where
  "num_train_subjects num_subjects ratio =
     (case float_result (of_nat num_subjects) of
        Inl e \<Rightarrow> Inl e
      | Inr n \<Rightarrow>
          (case float_result (n * ratio) of
             Inl e \<Rightarrow> Inl e
           | Inr product \<Rightarrow> Inr (py_round product)))"

text \<open>A slice \<open>xs[a:b]\<close> of a Python list: a negative bound counts from the end, and
  each bound is clamped to the list.\<close>

definition slice_bound :: "int \<Rightarrow> nat \<Rightarrow> nat" where
  "slice_bound i n = (if i < 0 then nat (max 0 (int n + i)) else min (nat i) n)"

definition py_slice :: "'a list \<Rightarrow> int \<Rightarrow> int \<Rightarrow> 'a list" where
  "py_slice xs a b =
     (let lo = slice_bound a (length xs); hi = slice_bound b (length xs)
      in take (hi - lo) (drop lo xs))"

text \<open>
  \<open>torch.utils.data.random_split(dataset, lengths)\<close> for two lengths, drawing from the
  global generator: \<open>randperm g n\<close> stands for \<open>torch.randperm(n)\<close> in generator state
  \<open>g\<close> and gives the permutation and the state after the draw. Lengths that sum to 1
  are read as fractions of the dataset (each must lie between 0 and 1); otherwise the
  lengths must sum to the size of the dataset. Subset \<open>k\<close> gets the indices
  \<open>perm[offset - length : offset]\<close>, \<open>offset\<close> running over the partial sums.
\<close>

definition random_split ::
  "('g \<Rightarrow> nat \<Rightarrow> nat list \<times> 'g) \<Rightarrow> 'a list \<Rightarrow> int \<times> int \<Rightarrow> 'g
     \<Rightarrow> error + (('a subset \<times> 'a subset) \<times> 'g)" where
  "random_split randperm ds lengths g =
     (let (l1, l2) = lengths; n = int (length ds)
      in if l1 + l2 = 1 \<and> (l1 < 0 \<or> 1 < l1 \<or> l2 < 0 \<or> 1 < l2) then Inl ValueError
         else
           let (m1, m2) = (if l1 + l2 = 1 then (n * l1, n * l2) else (l1, l2))
           in if m1 + m2 \<noteq> n then Inl ValueError
              else
                let (perm, g') = randperm g (nat (m1 + m2))
                in Inr ((\<lparr>dataset = ds, indices = py_slice perm (m1 - m1) m1\<rparr>,
                         \<lparr>dataset = ds, indices = py_slice perm (m1 + m2 - m2) (m1 + m2)\<rparr>), g'))"

text \<open>
  The first five lines of \<open>setup\<close>:
  \<^verbatim>\<open>
  num_subjects = len(self.subjects)
  num_train_subjects = int(round(num_subjects * self.train_val_ratio))
  num_val_subjects = num_subjects - num_train_subjects
  splits = num_train_subjects, num_val_subjects
  train_subjects, val_subjects = random_split(self.subjects, splits)
  \<close>
\<close>

definition setup_split ::
  "('g \<Rightarrow> nat \<Rightarrow> nat list \<times> 'g) \<Rightarrow> datamodule \<Rightarrow> 'g
     \<Rightarrow> error + ((subject subset \<times> subject subset) \<times> 'g)" where
  "setup_split randperm dm g =
     (case subjects dm of
        None \<Rightarrow> Inl TypeError
      | Some ss \<Rightarrow>
          let num_subjects = length ss
          in case num_train_subjects num_subjects (train_val_ratio dm) of
               Inl e \<Rightarrow> Inl e
             | Inr num_train \<Rightarrow>
                 let num_val_subjects = int num_subjects - num_train;
                     splits = (num_train, num_val_subjects)
                 in random_split randperm ss splits g)"

section \<open>Transform pipelines\<close>

text \<open>
  \<open>get_max_shape\<close>. \<open>spatial_shape s\<close> stands for reading the spatial shape of a subject
  from its files, which can fail. \<open>tio.SubjectsDataset\<close> refuses an empty list;
  \<open>shapes.max(axis=0)\<close> is the maximum along each of the three axes.
\<close>

fun spatial_shapes :: "(subject \<Rightarrow> error + shape) \<Rightarrow> subject list \<Rightarrow> error + shape list" where
  "spatial_shapes spatial_shape [] = Inr []"
| "spatial_shapes spatial_shape (s # ss) =
     (case spatial_shape s of
        Inl e \<Rightarrow> Inl e
      | Inr x \<Rightarrow>
          (case spatial_shapes spatial_shape ss of
             Inl e \<Rightarrow> Inl e
           | Inr xs \<Rightarrow> Inr (x # xs)))"

fun max_axis0 :: "shape list \<Rightarrow> shape" where
  "max_axis0 [] = (0, 0, 0)"
| "max_axis0 [x] = x"
| "max_axis0 ((a, b, c) # xs) =
     (case max_axis0 xs of (a', b', c') \<Rightarrow> (max a a', max b b', max c c'))"

definition get_max_shape :: "(subject \<Rightarrow> error + shape) \<Rightarrow> subject list \<Rightarrow> error + shape" where
  "get_max_shape spatial_shape subjects' =
     (if subjects' = [] then Inl ValueError
      else case spatial_shapes spatial_shape subjects' of
             Inl e \<Rightarrow> Inl e
           | Inr shapes \<Rightarrow> Inr (max_axis0 shapes))"

definition get_preprocessing_transform ::
  "(subject \<Rightarrow> error + shape) \<Rightarrow> datamodule \<Rightarrow> error + transform" where
  "get_preprocessing_transform spatial_shape dm =
     (case (subjects dm, test_subjects dm) of
        (Some ss, Some ts) \<Rightarrow>
          (case get_max_shape spatial_shape (ss @ ts) of
             Inl e \<Rightarrow> Inl e
           | Inr m \<Rightarrow>
               Inr (Compose [RescaleIntensity (- 1) 1, CropOrPad m, EnsureShapeMultiple 8, OneHot]))
      | _ \<Rightarrow> Inl TypeError)"

definition get_augmentation_transform :: transform where
  "get_augmentation_transform =
     Compose [RandomAffine, RandomGamma (1 / 2), RandomNoise (1 / 2), RandomMotion (1 / 10),
              RandomBiasField (1 / 4)]"

text \<open>\<open>tio.SubjectsDataset(subjects, transform=t)\<close> raises \<open>ValueError\<close> on an empty
  collection of subjects.\<close>

definition SubjectsDataset :: "subject list \<Rightarrow> transform option \<Rightarrow> error + subjects_dataset" where
  "SubjectsDataset subjects' t =
     (if subjects' = [] then Inl ValueError
      else Inr \<lparr>ds_subjects = subjects', ds_transform = t\<rparr>)"

text \<open>The method \<open>setup\<close> of the data module (here \<open>datamodule_setup\<close>): the split,
  then the two pipelines, then the three datasets.\<close>

definition datamodule_setup ::
  "('g \<Rightarrow> nat \<Rightarrow> nat list \<times> 'g) \<Rightarrow> (subject \<Rightarrow> error + shape) \<Rightarrow> datamodule \<Rightarrow> 'g
     \<Rightarrow> error + (datamodule \<times> 'g)" where
  "datamodule_setup randperm spatial_shape dm g =
     (case setup_split randperm dm g of
        Inl e \<Rightarrow> Inl e
      | Inr ((train_subjects, val_subjects), g') \<Rightarrow>
     (case get_preprocessing_transform spatial_shape dm of
        Inl e \<Rightarrow> Inl e
      | Inr preprocess' \<Rightarrow>
     (let augment = get_augmentation_transform;
          transform' = Compose [preprocess', augment]
      in
     (case SubjectsDataset (subset_items train_subjects) (Some transform') of
        Inl e \<Rightarrow> Inl e
      | Inr train_set' \<Rightarrow>
     (case SubjectsDataset (subset_items val_subjects) (Some preprocess') of
        Inl e \<Rightarrow> Inl e
      | Inr val_set' \<Rightarrow>
     (case test_subjects dm of
        None \<Rightarrow> Inl TypeError
      | Some ts \<Rightarrow>
     (case SubjectsDataset ts (Some preprocess') of
        Inl e \<Rightarrow> Inl e
      | Inr test_set' \<Rightarrow>
          Inr (dm\<lparr>preprocess := Some preprocess', transform := Some transform',
                  train_set := Some train_set', val_set := Some val_set',
                  test_set := Some test_set'\<rparr>, g'))))))))"

text \<open>
  The steps a transform applies to a subject, in order: \<open>tio.Compose\<close> runs its
  members one after the other, and a composition inside a composition runs in place.
\<close>

fun steps :: "transform \<Rightarrow> transform list" where
  "steps (Compose ts) = concat (map steps ts)"
| "steps t = [t]"

section \<open>Batch loaders\<close>

text \<open>
  \<open>DataLoader(dataset, batch_size)\<close> with every other argument at its default:
  \<open>shuffle\<close> is off, so the sampler is sequential, and \<open>drop_last\<close> is off, so a
  shorter last batch is kept. A batch size that is not positive is refused.
\<close>

record dataloader =
  dl_dataset :: "subjects_dataset option"
  dl_batch_size :: int
  dl_shuffle :: bool

definition DataLoader :: "subjects_dataset option \<Rightarrow> int \<Rightarrow> error + dataloader" where
  "DataLoader ds bs =
     (if bs \<le> 0 then Inl ValueError
      else Inr \<lparr>dl_dataset = ds, dl_batch_size = bs, dl_shuffle = False\<rparr>)"

definition train_dataloader :: "datamodule \<Rightarrow> error + dataloader" where
  "train_dataloader dm = DataLoader (train_set dm) (batch_size dm)"

definition val_dataloader :: "datamodule \<Rightarrow> error + dataloader" where
  "val_dataloader dm = DataLoader (val_set dm) (batch_size dm)"

definition test_dataloader :: "datamodule \<Rightarrow> error + dataloader" where
  "test_dataloader dm = DataLoader (test_set dm) (batch_size dm)"

text \<open>One pass over a loader. The sampler gives the order of the indices: the
  permutation \<open>perm\<close> drawn for this pass when \<open>shuffle\<close> is on, the positions
  \<open>0, 1, ...\<close> otherwise; the batch sampler cuts that order into runs of
  \<open>batch_size\<close> indices.\<close>

function chunks :: "nat \<Rightarrow> 'a list \<Rightarrow> 'a list list" where
  "chunks n xs = (if n = 0 \<or> xs = [] then [] else take n xs # chunks n (drop n xs))"
  by pat_completeness auto
termination
  by (relation "measure (\<lambda>(n, xs). length xs)") auto

declare chunks.simps [simp del]

definition epoch_batches :: "dataloader \<Rightarrow> nat list \<Rightarrow> error + subject list list" where
  "epoch_batches dl perm =
     (case dl_dataset dl of
        None \<Rightarrow> Inl TypeError
      | Some ds \<Rightarrow>
          let order = (if dl_shuffle dl then perm else [0..<length (ds_subjects ds)])
          in Inr (chunks (nat (dl_batch_size dl)) (map (\<lambda>i. ds_subjects ds ! i) order)))"

section \<open>One-hot encoding of a label map\<close>


section \<open>Lightning model\<close>

text \<open>
  A batch maps a role to the fields of the collated images of that role; the tensor
  is the field \<open>tio.DATA\<close>, that is \<open>'data'\<close>. The network and the loss are whatever
  the model was built with; either can fail. \<open>len y\<close> is the size of the first axis
  of a tensor.
\<close>

type_synonym 't batch = "string \<rightharpoonup> (string \<rightharpoonup> 't)"

record ('t, 'o) model =
  lr :: rat
  net :: "'t \<Rightarrow> error + 't"
  criterion :: "'t \<Rightarrow> 't \<Rightarrow> error + 't"
  optimizer_class :: 'o

record 't log_entry =
  log_name :: string
  log_value :: 't
  log_prog_bar :: bool
  log_batch_size :: nat

definition prepare_batch :: "'t batch \<Rightarrow> error + ('t \<times> 't)" where
  "prepare_batch batch =
     (case batch ''image'' of
        None \<Rightarrow> Inl KeyError
      | Some image_fields \<Rightarrow>
     (case image_fields ''data'' of
        None \<Rightarrow> Inl KeyError
      | Some x \<Rightarrow>
     (case batch ''label'' of
        None \<Rightarrow> Inl KeyError
      | Some label_fields \<Rightarrow>
     (case label_fields ''data'' of
        None \<Rightarrow> Inl KeyError
      | Some y \<Rightarrow> Inr (x, y)))))"

definition infer_batch :: "('t, 'o) model \<Rightarrow> 't batch \<Rightarrow> error + ('t \<times> 't)" where
  "infer_batch m batch =
     (case prepare_batch batch of
        Inl e \<Rightarrow> Inl e
      | Inr (x, y) \<Rightarrow>
          (case net m x of
             Inl e \<Rightarrow> Inl e
           | Inr y_hat \<Rightarrow> Inr (y_hat, y)))"

text \<open>The two step hooks return the loss and extend what has been logged. \<open>self.log\<close>
  leaves \<open>prog_bar\<close> off unless it is asked for.\<close>

definition training_step ::
  "('t, 'o) model \<Rightarrow> ('t \<Rightarrow> nat) \<Rightarrow> 't batch \<Rightarrow> nat \<Rightarrow> 't log_entry list
     \<Rightarrow> error + ('t \<times> 't log_entry list)" where
  "training_step m len batch batch_idx logged =
     (case infer_batch m batch of
        Inl e \<Rightarrow> Inl e
      | Inr (y_hat, y) \<Rightarrow>
          (case criterion m y_hat y of
             Inl e \<Rightarrow> Inl e
           | Inr loss \<Rightarrow>
               Inr (loss, logged @ [\<lparr>log_name = ''train_loss'', log_value = loss,
                                      log_prog_bar = True, log_batch_size = len y\<rparr>])))"

definition validation_step ::
  "('t, 'o) model \<Rightarrow> ('t \<Rightarrow> nat) \<Rightarrow> 't batch \<Rightarrow> nat \<Rightarrow> 't log_entry list
     \<Rightarrow> error + ('t \<times> 't log_entry list)" where
  "validation_step m len batch batch_idx logged =
     (case infer_batch m batch of
        Inl e \<Rightarrow> Inl e
      | Inr (y_hat, y) \<Rightarrow>
          (case criterion m y_hat y of
             Inl e \<Rightarrow> Inl e
           | Inr loss \<Rightarrow>
               Inr (loss, logged @ [\<lparr>log_name = ''val_loss'', log_value = loss,
                                      log_prog_bar = False, log_batch_size = len y\<rparr>])))"

section \<open>The script around the data module\<close>

text \<open>
  \<open>monai.utils.set_determinism()\<close> at the head of the script, called without a seed:
  the default seed is the largest 32-bit unsigned number, it is reduced modulo
  \<open>MAX_SEED = NP_MAX + 1\<close> and handed to \<open>torch.manual_seed\<close>, which puts the global
  generator into the state that belongs to the seed, whatever state it was in. Which
  constant the default seed is plays no role below, only that it is one.
\<close>

definition NP_MAX :: int where
  "NP_MAX = 2 ^ 32 - 1"

definition set_determinism :: "(int \<Rightarrow> 'g) \<Rightarrow> 'g \<Rightarrow> 'g" where
  "set_determinism manual_seed g = manual_seed (NP_MAX mod (NP_MAX + 1))"

text \<open>
  The script up to its first look at the split, from a process that starts with the
  global generator in state \<open>g0\<close>:
  \<^verbatim>\<open>
  monai.utils.set_determinism()
  data = MedicalDecathlonDataModule(task='Task04_Hippocampus', google_id=...,
                                    batch_size=16, train_val_ratio=0.8)
  data.prepare_data()
  data.setup()
  \<close>
  The literal \<open>0.8\<close> is the double nearest to \<open>4 / 5\<close>.
\<close>

definition script_data :: datamodule where
  "script_data =
     init ''Task04_Hippocampus'' ''1RzPB1_bqzQhlWvU-YGvZzhx2omcDh38C'' 16 (round_to_double (4 / 5))"

definition script_run ::
  "(int \<Rightarrow> 'g) \<Rightarrow> ('g \<Rightarrow> nat \<Rightarrow> nat list \<times> 'g) \<Rightarrow> (subject \<Rightarrow> error + shape)
     \<Rightarrow> (string \<Rightarrow> string \<Rightarrow> filesystem \<Rightarrow> error + filesystem) \<Rightarrow> 'g \<Rightarrow> filesystem
     \<Rightarrow> error + (datamodule \<times> 'g \<times> filesystem)" where
  "script_run manual_seed randperm spatial_shape fetch g0 fs =
     (let g = set_determinism manual_seed g0;
          data = script_data
      in case prepare_data fetch data fs of
           Inl e \<Rightarrow> Inl e
         | Inr (data1, fs1) \<Rightarrow>
             (case datamodule_setup randperm spatial_shape data1 g of
                Inl e \<Rightarrow> Inl e
              | Inr (data2, g2) \<Rightarrow> Inr (data2, g2, fs1)))"

section \<open>Reference statements and example inputs\<close>

text \<open>
  The listing the indexer is asked for, in the words of its contract: the paths below
  \<open>d\<close> of the entries whose name has \<open>.nii\<close> in it and no leading dot, each entry
  once, in ascending order.
\<close>

definition listing_spec :: "filesystem \<Rightarrow> path \<Rightarrow> path list \<Rightarrow> bool" where
  "listing_spec fs d ps \<longleftrightarrow>
     sorted ps \<and>
     mset ps = image_mset (\<lambda>n. d @ [n])
                 (filter_mset (\<lambda>n. (\<exists>a b. n = a @ ''.nii'' @ b) \<and> \<not> (\<exists>r. n = CHR ''.'' # r))
                    (mset (case fs d of None \<Rightarrow> [] | Some names \<Rightarrow> names)))"

text \<open>A download that always fails, and a small dataset directory with two training
  images, one label and one test image.\<close>

definition no_fetch :: "string \<Rightarrow> string \<Rightarrow> filesystem \<Rightarrow> error + filesystem" where
  "no_fetch url output fs = Inl DownloadError"

definition example_fs :: filesystem where
  "example_fs =
     [[''Task''] \<mapsto> [''imagesTs'', ''imagesTr'', ''labelsTr''],
      [''Task'', ''imagesTr''] \<mapsto> [''b.nii.gz'', ''.hidden.nii'', ''a.nii.gz'', ''notes.txt''],
      [''Task'', ''labelsTr''] \<mapsto> [''a.nii.gz''],
      [''Task'', ''imagesTs''] \<mapsto> [''t.nii'']]"

definition example_dm :: datamodule where
  "example_dm = init ''Task'' ''id'' 16 (round_to_double (4 / 5))"

text \<open>The batch loaders as the claim describes them: the loader exists with the given
  batch size and without shuffling, and every pass yields the subjects of the dataset
  in their order, cut into batches of that size, the last one possibly shorter.\<close>

definition loads_in_order :: "error + dataloader \<Rightarrow> subjects_dataset \<Rightarrow> int \<Rightarrow> bool" where
  "loads_in_order r ds bs \<longleftrightarrow>
     (\<exists>dl. r = Inr dl \<and> dl_batch_size dl = bs \<and> \<not> dl_shuffle dl
          \<and> (\<forall>perm. \<exists>batches.
                epoch_batches dl perm = Inr batches
              \<and> concat batches = ds_subjects ds
              \<and> (\<forall>b \<in> set batches. 0 < length b \<and> int (length b) \<le> bs)
              \<and> (\<forall>b \<in> set (butlast batches). int (length b) = bs)))"

text \<open>A generator whose state is a counter: \<open>rot_randperm\<close> rotates the identity
  permutation by the counter and reverses it, \<open>seed_gen\<close> starts the counter from the seed.\<close>

definition rot_randperm :: "nat \<Rightarrow> nat \<Rightarrow> nat list \<times> nat" where
  "rot_randperm g n = (rev (rotate g [0..<n]), Suc g)"

definition seed_gen :: "int \<Rightarrow> nat" where
  "seed_gen seed = nat seed"

text \<open>Three training subjects and one test subject; the same with a second, larger
  test volume; and the shapes of the volumes.\<close>

definition example_subjects :: "subject list" where
  "example_subjects =
     [training_subject [''Task'', ''imagesTr'', ''a.nii''] [''Task'', ''labelsTr'', ''a.nii''],
      training_subject [''Task'', ''imagesTr'', ''b.nii''] [''Task'', ''labelsTr'', ''b.nii''],
      training_subject [''Task'', ''imagesTr'', ''c.nii''] [''Task'', ''labelsTr'', ''c.nii'']]"

definition example_dm3 :: datamodule where
  "example_dm3 =
     example_dm\<lparr>subjects := Some example_subjects,
                test_subjects := Some [test_subject [''Task'', ''imagesTs'', ''t.nii'']]\<rparr>"

definition example_dm3_big :: datamodule where
  "example_dm3_big =
     example_dm\<lparr>subjects := Some example_subjects,
                test_subjects := Some [test_subject [''Task'', ''imagesTs'', ''t.nii''],
                                       test_subject [''Task'', ''imagesTs'', ''big.nii'']]\<rparr>"

definition example_spatial_shape :: "subject \<Rightarrow> error + shape" where
  "example_spatial_shape s =
     (case s ''image'' of
        Some (ScalarImage p) \<Rightarrow>
          if p = [''Task'', ''imagesTs'', ''big.nii''] then Inr (64, 40, 64)
          else if p = [''Task'', ''imagesTr'', ''a.nii''] then Inr (35, 51, 30)
          else Inr (36, 48, 35)
      | _ \<Rightarrow> Inl KeyError)"

text \<open>The dataset directory the script looks for, with three matched pairs and one
  test image.\<close>

definition hippocampus_fs :: filesystem where
  "hippocampus_fs =
     [[''Task04_Hippocampus''] \<mapsto> [''labelsTr'', ''imagesTs'', ''imagesTr''],
      [''Task04_Hippocampus'', ''imagesTr''] \<mapsto>
        [''hippocampus_003.nii.gz'', ''hippocampus_001.nii.gz'', ''hippocampus_004.nii.gz''],
      [''Task04_Hippocampus'', ''labelsTr''] \<mapsto>
        [''hippocampus_001.nii.gz'', ''hippocampus_004.nii.gz'', ''hippocampus_003.nii.gz''],
      [''Task04_Hippocampus'', ''imagesTs''] \<mapsto> [''hippocampus_002.nii.gz'']]"

definition hippocampus_subject :: "string \<Rightarrow> subject" where
  "hippocampus_subject n =
     [''image'' \<mapsto> ScalarImage [''Task04_Hippocampus'', ''imagesTr'', n],
      ''label'' \<mapsto> LabelMap [''Task04_Hippocampus'', ''labelsTr'', n]]"

definition hippocampus_data1 :: datamodule where
  "hippocampus_data1 =
     script_data\<lparr>subjects := Some [hippocampus_subject ''hippocampus_001.nii.gz'',
                                    hippocampus_subject ''hippocampus_003.nii.gz'',
                                    hippocampus_subject ''hippocampus_004.nii.gz''],
                 test_subjects :=
                   Some [test_subject [''Task04_Hippocampus'', ''imagesTs'', ''hippocampus_002.nii.gz'']]\<rparr>"

text \<open>A model over integer tensors: the network adds one, the loss is the difference.\<close>

definition example_model :: "(int, unit) model" where
  "example_model =
     \<lparr>lr = 1 / 100, net = (\<lambda>x. Inr (x + 1)), criterion = (\<lambda>y_hat y. Inr (y_hat - y)),
       optimizer_class = ()\<rparr>"

definition example_batch :: "int batch" where
  "example_batch = [''image'' \<mapsto> [''data'' \<mapsto> 5], ''label'' \<mapsto> [''data'' \<mapsto> 2]]"

section \<open>Verification\<close>

subsection \<open>Subject indexer\<close>

lemma path_name_snoc: "path_name (d @ [n]) = n"
  by (simp add: path_name_def)

lemma contains_str_iff: "contains_str s p \<longleftrightarrow> (\<exists>a b. s = a @ p @ b)"
proof (induction s)
  case Nil
  then show ?case by auto
next
  case (Cons c cs)
  show ?case
  proof
    assume "contains_str (c # cs) p"
    then consider "startswith (c # cs) p" | "contains_str cs p" by auto
    then show "\<exists>a b. c # cs = a @ p @ b"
    proof cases
      case 1
      then have "c # cs = [] @ p @ drop (length p) (c # cs)"
        unfolding startswith_def by (metis append_Nil append_take_drop_id)
      then show ?thesis by blast
    next
      case 2
      then obtain a b where "cs = a @ p @ b" using Cons.IH by blast
      then have "c # cs = (c # a) @ p @ b" by simp
      then show ?thesis by blast
    qed
  next
    assume "\<exists>a b. c # cs = a @ p @ b"
    then obtain a b where ab: "c # cs = a @ p @ b" by blast
    show "contains_str (c # cs) p"
    proof (cases a)
      case Nil
      then have "startswith (c # cs) p" using ab by (simp add: startswith_def)
      then show ?thesis by simp
    next
      case (Cons x a')
      then have "cs = a' @ p @ b" using ab by simp
      then have "contains_str cs p" using Cons.IH by blast
      then show ?thesis by simp
    qed
  qed
qed

lemma startswith_dot: "startswith s ''.'' \<longleftrightarrow> (\<exists>r. s = CHR ''.'' # r)"
  by (cases s) (auto simp: startswith_def)

lemma get_niis_listing: "listing_spec fs d (get_niis fs d)"
proof -
  define names where "names = (case fs d of None \<Rightarrow> [] | Some ns \<Rightarrow> ns)"
  have g: "glob_nii fs d = map (\<lambda>n. d @ [n]) (filter fnmatch_nii names)"
    by (simp add: glob_nii_def names_def split: option.splits)
  have "mset (get_niis fs d) =
          image_mset (\<lambda>n. d @ [n])
            (filter_mset (\<lambda>n. \<not> startswith n ''.'') (filter_mset fnmatch_nii (mset names)))"
    by (simp add: get_niis_def g filter_map comp_def path_name_snoc filter_filter_mset conj_commute)
  also have "\<dots> = image_mset (\<lambda>n. d @ [n])
            (filter_mset (\<lambda>n. (\<exists>a b. n = a @ ''.nii'' @ b) \<and> \<not> (\<exists>r. n = CHR ''.'' # r)) (mset names))"
    by (simp add: filter_filter_mset fnmatch_nii_def contains_str_iff startswith_dot conj_commute)
  finally show ?thesis
    by (simp add: listing_spec_def names_def get_niis_def)
qed

lemma subjects_loop:
  "foldl (\<lambda>d (image_path, label_path).
            d\<lparr>subjects := map_option (\<lambda>xs. xs @ [training_subject image_path label_path]) (subjects d)\<rparr>)
         (d0\<lparr>subjects := Some acc\<rparr>) ps
   = d0\<lparr>subjects := Some (acc @ map (\<lambda>(i, l). training_subject i l) ps)\<rparr>"
  by (induction ps arbitrary: acc) auto

lemma test_subjects_loop:
  "foldl (\<lambda>d image_path.
            d\<lparr>test_subjects := map_option (\<lambda>xs. xs @ [test_subject image_path]) (test_subjects d)\<rparr>)
         (d0\<lparr>test_subjects := Some acc\<rparr>) ps
   = d0\<lparr>test_subjects := Some (acc @ map test_subject ps)\<rparr>"
  by (induction ps arbitrary: acc) auto

lemma prepare_data_unfold:
  "prepare_data fetch dm fs =
     (case download_data fetch dm fs of
        Inl e \<Rightarrow> Inl e
      | Inr ((a, b, c), fs') \<Rightarrow>
          Inr (dm\<lparr>subjects := Some (map (\<lambda>(i, l). training_subject i l) (zip a b)),
                  test_subjects := Some (map test_subject c)\<rparr>, fs'))"
  unfolding prepare_data_def Let_def
  by (simp add: subjects_loop test_subjects_loop split: sum.splits prod.splits)

lemma download_data_existing:
  "is_dir fs (dataset_dir dm) \<Longrightarrow>
   download_data fetch dm fs =
     Inr ((get_niis fs (dataset_dir dm @ [''imagesTr'']),
           get_niis fs (dataset_dir dm @ [''labelsTr'']),
           get_niis fs (dataset_dir dm @ [''imagesTs''])), fs)"
  by (simp add: download_data_def)

lemma example_is_dir: "is_dir example_fs (dataset_dir example_dm)"
  by (simp add: is_dir_def example_fs_def example_dm_def init_def)

lemma example_listing:
  "download_data no_fetch example_dm example_fs =
     Inr (([[''Task'', ''imagesTr'', ''a.nii.gz''], [''Task'', ''imagesTr'', ''b.nii.gz'']],
           [[''Task'', ''labelsTr'', ''a.nii.gz'']],
           [[''Task'', ''imagesTs'', ''t.nii'']]), example_fs)"
  by (simp add: download_data_def example_dm_def init_def is_dir_def example_fs_def get_niis_def
      glob_nii_def fnmatch_nii_def startswith_def path_name_def)

lemma example_prepare_data:
  "prepare_data no_fetch example_dm example_fs =
     Inr (example_dm\<lparr>subjects :=
                        Some [training_subject [''Task'', ''imagesTr'', ''a.nii.gz'']
                                [''Task'', ''labelsTr'', ''a.nii.gz'']],
                      test_subjects := Some [test_subject [''Task'', ''imagesTs'', ''t.nii'']]\<rparr>,
          example_fs)"
  by (simp add: prepare_data_unfold example_listing)

lemma map_zip_positions:
  "map f (zip xs ys) = map (\<lambda>k. f (xs ! k, ys ! k)) [0..<min (length xs) (length ys)]"
  by (intro nth_equalityI) simp_all

text \<open>
  Claim C2. When the sorted image and label listings differ in length, \<open>prepare_data\<close>
  pairs them position by position up to the end of the shorter one and returns without
  an error: the training subjects it stores are the pairs of the image path and the
  label path at the positions \<open>0, ..., min - 1\<close>, in that order, and nothing else, so
  the list has the length of the shorter listing.
\<close>

theorem prepare_data_truncates_to_shorter:
  assumes "download_data fetch dm fs =
             Inr ((image_training_paths, label_training_paths, image_test_paths), fs')"
  shows "\<exists>dm'. prepare_data fetch dm fs = Inr (dm', fs') \<and>
           subjects dm' =
             Some (map (\<lambda>k. [''image'' \<mapsto> ScalarImage (image_training_paths ! k),
                               ''label'' \<mapsto> LabelMap (label_training_paths ! k)])
                     [0..<min (length image_training_paths) (length label_training_paths)]) \<and>
           map_option length (subjects dm') =
             Some (min (length image_training_paths) (length label_training_paths))"
  using assms
  by (simp add: prepare_data_unfold training_subject_def
      map_zip_positions [of _ image_training_paths label_training_paths])

theorem prepare_data_truncates_to_shorter_witness:
  "download_data no_fetch example_dm example_fs =
     Inr (([[''Task'', ''imagesTr'', ''a.nii.gz''], [''Task'', ''imagesTr'', ''b.nii.gz'']],
           [[''Task'', ''labelsTr'', ''a.nii.gz'']],
           [[''Task'', ''imagesTs'', ''t.nii'']]), example_fs) \<and>
   (\<exists>dm'. prepare_data no_fetch example_dm example_fs = Inr (dm', example_fs) \<and>
      subjects dm' =
        Some [[''image'' \<mapsto> ScalarImage [''Task'', ''imagesTr'', ''a.nii.gz''],
               ''label'' \<mapsto> LabelMap [''Task'', ''labelsTr'', ''a.nii.gz'']]] \<and>
      map_option length (subjects dm') = Some 1)"
  using prepare_data_truncates_to_shorter [OF example_listing] example_listing by simp

text \<open>
  Claim C6. For a dataset directory that exists, the indexer reads from each of
  \<open>imagesTr\<close>, \<open>labelsTr\<close> and \<open>imagesTs\<close> the entries matching \<open>*.nii*\<close> without
  the hidden ones, in ascending order; the training subject at position \<open>i\<close> holds
  the image path at position \<open>i\<close> under \<open>image\<close> and the label path at position \<open>i\<close>
  under \<open>label\<close>; each test path gives one test subject whose only role is
  \<open>image\<close>.
\<close>

theorem subject_indexer_contract:
  assumes "is_dir fs (dataset_dir dm)"
  shows "\<exists>imgs lbls tests dm' ss ts.
      download_data fetch dm fs = Inr ((imgs, lbls, tests), fs)
    \<and> listing_spec fs (dataset_dir dm @ [''imagesTr'']) imgs
    \<and> listing_spec fs (dataset_dir dm @ [''labelsTr'']) lbls
    \<and> listing_spec fs (dataset_dir dm @ [''imagesTs'']) tests
    \<and> prepare_data fetch dm fs = Inr (dm', fs)
    \<and> subjects dm' = Some ss \<and> length ss = min (length imgs) (length lbls)
    \<and> (\<forall>i < length ss.
          ss ! i = [''image'' \<mapsto> ScalarImage (imgs ! i), ''label'' \<mapsto> LabelMap (lbls ! i)])
    \<and> test_subjects dm' = Some ts \<and> length ts = length tests
    \<and> (\<forall>i < length ts.
          ts ! i = [''image'' \<mapsto> ScalarImage (tests ! i)] \<and> dom (ts ! i) = {''image''})"
  using assms
  by (simp add: download_data_existing prepare_data_unfold get_niis_listing
      training_subject_def test_subject_def)

theorem subject_indexer_contract_witness:
  "is_dir example_fs (dataset_dir example_dm) \<and>
   (\<exists>imgs lbls tests dm' ss ts.
      download_data no_fetch example_dm example_fs = Inr ((imgs, lbls, tests), example_fs)
    \<and> listing_spec example_fs (dataset_dir example_dm @ [''imagesTr'']) imgs
    \<and> listing_spec example_fs (dataset_dir example_dm @ [''labelsTr'']) lbls
    \<and> listing_spec example_fs (dataset_dir example_dm @ [''imagesTs'']) tests
    \<and> prepare_data no_fetch example_dm example_fs = Inr (dm', example_fs)
    \<and> subjects dm' = Some ss \<and> length ss = min (length imgs) (length lbls)
    \<and> (\<forall>i < length ss.
          ss ! i = [''image'' \<mapsto> ScalarImage (imgs ! i), ''label'' \<mapsto> LabelMap (lbls ! i)])
    \<and> test_subjects dm' = Some ts \<and> length ts = length tests
    \<and> (\<forall>i < length ts.
          ts ! i = [''image'' \<mapsto> ScalarImage (tests ! i)] \<and> dom (ts ! i) = {''image''}))"
  using subject_indexer_contract [OF example_is_dir, of no_fetch] example_is_dir by blast

text \<open>
  Claim C10. \<open>prepare_data\<close> builds both subject lists anew on each call. Once a call
  has returned and the dataset directory is there, any number of further calls leaves
  the data module and the file system as that call left them: the lists are replaced,
  not extended.
\<close>

theorem prepare_data_idempotent:
  assumes "prepare_data fetch dm fs = Inr (dm1, fs1)"
    and "is_dir fs1 (dataset_dir dm)"
  shows "prepare_data_calls fetch (Suc n) dm fs = Inr (dm1, fs1)"
proof -
  have again: "prepare_data fetch dm1 fs1 = Inr (dm1, fs1)"
    using assms
    by (auto simp: prepare_data_unfold download_data_def split: sum.splits if_splits)
  have rep: "prepare_data_calls fetch k dm1 fs1 = Inr (dm1, fs1)" for k
    by (induction k) (simp_all add: again)
  show ?thesis using assms(1) by (simp add: rep)
qed

theorem prepare_data_idempotent_witness:
  "prepare_data no_fetch example_dm example_fs =
     Inr (example_dm\<lparr>subjects :=
                        Some [training_subject [''Task'', ''imagesTr'', ''a.nii.gz'']
                                [''Task'', ''labelsTr'', ''a.nii.gz'']],
                      test_subjects := Some [test_subject [''Task'', ''imagesTs'', ''t.nii'']]\<rparr>,
          example_fs) \<and>
   is_dir example_fs (dataset_dir example_dm) \<and>
   prepare_data_calls no_fetch (Suc (Suc (Suc 0))) example_dm example_fs =
     Inr (example_dm\<lparr>subjects :=
                        Some [training_subject [''Task'', ''imagesTr'', ''a.nii.gz'']
                                [''Task'', ''labelsTr'', ''a.nii.gz'']],
                      test_subjects := Some [test_subject [''Task'', ''imagesTs'', ''t.nii'']]\<rparr>,
          example_fs)"
  using prepare_data_idempotent [OF example_prepare_data example_is_dir, of "Suc (Suc 0)"]
    example_prepare_data example_is_dir
  by simp

subsection \<open>Split allocator\<close>

lemma py_round_cases: "py_round x = \<lfloor>x\<rfloor> \<or> py_round x = \<lfloor>x\<rfloor> + 1"
  by (simp add: py_round_def Let_def)

lemma py_round_nonneg: "0 \<le> x \<Longrightarrow> 0 \<le> py_round x"
  using py_round_cases [of x] by (auto simp: le_floor_iff)

lemma py_round_of_int [simp]: "py_round (of_int m) = m"
  by (simp add: py_round_def)

lemma py_round_le:
  assumes "x \<le> of_int n" shows "py_round x \<le> n"
proof (cases "\<lfloor>x\<rfloor> < n")
  case True
  then show ?thesis using py_round_cases [of x] by auto
next
  case False
  have "\<lfloor>x\<rfloor> \<le> n" using assms by (simp add: floor_le_iff)
  then have fl: "\<lfloor>x\<rfloor> = n" using False by simp
  then have "of_int n \<le> x" by (metis of_int_floor_le)
  then have "x = of_int n" using assms by simp
  then show ?thesis by simp
qed

text \<open>\<open>py_round\<close> is rounding to the nearest integer with ties to even: the result is
  within one half of the argument, and where it is exactly one half away it is even.\<close>

lemma py_round_nearest:
  "\<bar>of_int (py_round x) - x\<bar> \<le> 1 / 2
   \<and> (\<bar>of_int (py_round x) - x\<bar> = 1 / 2 \<longrightarrow> even (py_round x))"
proof -
  define f where "f = \<lfloor>x\<rfloor>"
  define d where "d = x - of_int f"
  have d0: "0 \<le> d" and d1: "d < 1" unfolding d_def f_def by linarith+
  have dev: "of_int (py_round x) - x = - d" if "py_round x = f"
    using that by (simp add: d_def)
  have dev1: "of_int (py_round x) - x = 1 - d" if "py_round x = f + 1"
    using that by (simp add: d_def)
  consider "d < 1 / 2" | "1 / 2 < d" | "d = 1 / 2" "even f" | "d = 1 / 2" "odd f" by fastforce
  then show ?thesis
  proof cases
    case 1
    then have pr: "py_round x = f" by (simp add: py_round_def f_def d_def Let_def)
    show ?thesis unfolding dev [OF pr] using 1 d0 by simp
  next
    case 2
    then have pr: "py_round x = f + 1" by (simp add: py_round_def f_def d_def Let_def)
    show ?thesis unfolding dev1 [OF pr] using 2 d1 by simp
  next
    case 3
    then have "x - of_int \<lfloor>x\<rfloor> = 1 / 2" "even \<lfloor>x\<rfloor>" by (simp_all add: d_def f_def)
    then have pr: "py_round x = f"
      by (simp add: py_round_def Let_def f_def)
    show ?thesis unfolding dev [OF pr] using 3 by (simp add: pr)
  next
    case 4
    then have "x - of_int \<lfloor>x\<rfloor> = 1 / 2" "odd \<lfloor>x\<rfloor>" by (simp_all add: d_def f_def)
    then have pr: "py_round x = f + 1"
      by (simp add: py_round_def Let_def f_def)
    show ?thesis unfolding dev1 [OF pr] using 4 by (simp add: pr)
  qed
qed

text \<open>\<open>exponent\<close> is the binary exponent.\<close>

lemma exponent_bounds:
  assumes "0 < a"
  shows "power_int 2 (exponent a) \<le> a" and "a < power_int 2 (exponent a + 1)"
proof -
  show "power_int 2 (exponent a) \<le> a"
  proof (cases "1 \<le> a")
    case True
    then have p: "0 < \<lfloor>a\<rfloor>" by simp
    then have b: "1 \<le> bitlen \<lfloor>a\<rfloor>" by (simp add: bitlen_alt_def)
    have "(2::int) ^ nat (bitlen \<lfloor>a\<rfloor> - 1) \<le> \<lfloor>a\<rfloor>" using bitlen_bounds [OF p] by simp
    then have "of_int ((2::int) ^ nat (bitlen \<lfloor>a\<rfloor> - 1)) \<le> (of_int \<lfloor>a\<rfloor> :: rat)"
      by (simp only: of_int_le_iff)
    also have "\<dots> \<le> a" by simp
    finally have "(2::rat) ^ nat (bitlen \<lfloor>a\<rfloor> - 1) \<le> a" by simp
    then show ?thesis using True b by (simp add: exponent_def power_int_def)
  next
    case False
    define m where "m = \<lceil>1 / a\<rceil>"
    have "1 < 1 / a" using False assms by simp
    then have m2: "2 \<le> m" unfolding m_def by linarith
    then have p: "0 < m - 1" by simp
    have "m - 1 < 2 ^ nat (bitlen (m - 1))" using bitlen_bounds [OF p] by simp
    then have "m \<le> 2 ^ nat (bitlen (m - 1))" by simp
    then have "(of_int m :: rat) \<le> of_int (2 ^ nat (bitlen (m - 1)))" by (simp only: of_int_le_iff)
    then have "(of_int m :: rat) \<le> 2 ^ nat (bitlen (m - 1))" by simp
    moreover have "1 / a \<le> of_int m" unfolding m_def by simp
    ultimately have "1 / a \<le> 2 ^ nat (bitlen (m - 1))" by linarith
    then have "1 / 2 ^ nat (bitlen (m - 1)) \<le> a" using assms
      by (simp add: field_simps)
    moreover have "exponent a = - bitlen (m - 1)" using False by (simp add: exponent_def m_def)
    moreover have "1 \<le> bitlen (m - 1)" using p by (simp add: bitlen_alt_def)
    ultimately show ?thesis
      by (simp add: power_int_def field_simps)
  qed
  show "a < power_int 2 (exponent a + 1)"
  proof (cases "1 \<le> a")
    case True
    then have p: "0 < \<lfloor>a\<rfloor>" by simp
    then have b: "1 \<le> bitlen \<lfloor>a\<rfloor>" by (simp add: bitlen_alt_def)
    have "\<lfloor>a\<rfloor> < (2::int) ^ nat (bitlen \<lfloor>a\<rfloor>)" using bitlen_bounds [OF p] by simp
    then have "\<lfloor>a\<rfloor> + 1 \<le> (2::int) ^ nat (bitlen \<lfloor>a\<rfloor>)" by simp
    then have "(of_int (\<lfloor>a\<rfloor> + 1) :: rat) \<le> of_int ((2::int) ^ nat (bitlen \<lfloor>a\<rfloor>))"
      by (simp only: of_int_le_iff)
    then have "(of_int (\<lfloor>a\<rfloor> + 1) :: rat) \<le> 2 ^ nat (bitlen \<lfloor>a\<rfloor>)" by simp
    moreover have "a < of_int (\<lfloor>a\<rfloor> + 1)" by linarith
    ultimately have "a < 2 ^ nat (bitlen \<lfloor>a\<rfloor>)" by linarith
    then show ?thesis using True b by (simp add: exponent_def power_int_def)
  next
    case False
    define m where "m = \<lceil>1 / a\<rceil>"
    define k where "k = bitlen (m - 1)"
    have "1 < 1 / a" using False assms by simp
    then have m2: "2 \<le> m" unfolding m_def by linarith
    then have p: "0 < m - 1" by simp
    then have k1: "1 \<le> k" by (simp add: k_def bitlen_alt_def)
    have "(2::int) ^ nat (k - 1) \<le> m - 1" using bitlen_bounds [OF p] by (simp add: k_def)
    then have "(of_int ((2::int) ^ nat (k - 1)) :: rat) \<le> of_int (m - 1)" by (simp only: of_int_le_iff)
    then have "(2::rat) ^ nat (k - 1) \<le> of_int (m - 1)" by simp
    moreover have "of_int (m - 1) < 1 / a" unfolding m_def by linarith
    ultimately have "2 ^ nat (k - 1) < 1 / a" by linarith
    then have lt: "a < inverse (2 ^ nat (k - 1))" using assms by (simp add: field_simps)
    have "exponent a + 1 = - int (nat (k - 1))"
      using False k1 by (simp add: exponent_def m_def k_def)
    then have "power_int (2::rat) (exponent a + 1) = inverse (2 ^ nat (k - 1))"
      by (simp only: power_int_minus power_int_of_nat)
    then show ?thesis using lt by (simp only:)
  qed
qed

lemma exponent_le_52:
  assumes "0 < a" and "a < 2 ^ 53"
  shows "exponent a \<le> 52"
proof (cases "1 \<le> a")
  case True
  have "\<lfloor>a\<rfloor> < 2 ^ 53" using assms(2) by (simp add: floor_less_iff)
  then have "bitlen \<lfloor>a\<rfloor> \<le> 53" by (simp add: bitlen_le_iff_power)
  then show ?thesis using True by (simp add: exponent_def)
next
  case False
  then show ?thesis using bitlen_nonneg [of "\<lceil>1 / a\<rceil> - 1"] by (simp add: exponent_def)
qed

text \<open>The rounded value is within half a unit in the last place of the argument.\<close>

lemma round_to_double_half_ulp:
  assumes "x \<noteq> 0"
  shows "\<bar>round_to_double x - x\<bar> \<le> power_int 2 (max (exponent \<bar>x\<bar>) (- 1022) - 52) / 2"
proof -
  define q :: rat where "q = power_int 2 (max (exponent \<bar>x\<bar>) (- 1022) - 52)"
  have qp: "0 < q" by (simp add: q_def)
  have r: "round_to_double x = of_int (py_round (x / q)) * q"
    using assms by (simp add: round_to_double_def q_def Let_def)
  have "\<bar>of_int (py_round (x / q)) - x / q\<bar> \<le> 1 / 2" using py_round_nearest [of "x / q"] by blast
  then have "\<bar>of_int (py_round (x / q)) - x / q\<bar> * q \<le> 1 / 2 * q"
    using qp by (intro mult_right_mono) simp_all
  moreover have "\<bar>of_int (py_round (x / q)) - x / q\<bar> * q = \<bar>of_int (py_round (x / q)) * q - x\<bar>"
  proof -
    have "(of_int (py_round (x / q)) - x / q) * q = of_int (py_round (x / q)) * q - x"
      using qp by (simp add: left_diff_distrib)
    then have "\<bar>of_int (py_round (x / q)) * q - x\<bar> = \<bar>of_int (py_round (x / q)) - x / q\<bar> * \<bar>q\<bar>"
      by (simp only: abs_mult [symmetric])
    then show ?thesis using qp by simp
  qed
  ultimately have "\<bar>of_int (py_round (x / q)) * q - x\<bar> \<le> q / 2" by simp
  then have "\<bar>round_to_double x - x\<bar> \<le> q / 2" by (simp only: r)
  then show ?thesis by (simp only: q_def)
qed

text \<open>Below \<open>2 ^ 53\<close> the integers are doubles, and rounding does not pass one.\<close>

lemma round_to_double_bounds:
  assumes "0 \<le> x" and "x \<le> of_int n" and "n < 2 ^ 53"
  shows "0 \<le> round_to_double x" and "round_to_double x \<le> of_int n"
proof -
  show "0 \<le> round_to_double x"
    using assms(1) by (auto simp: round_to_double_def Let_def intro!: mult_nonneg_nonneg py_round_nonneg)
  show "round_to_double x \<le> of_int n"
  proof (cases "x = 0")
    case True
    then show ?thesis using assms by (simp add: round_to_double_def)
  next
    case False
    then have xp: "0 < x" using assms(1) by simp
    have "x < 2 ^ 53"
    proof -
      have "(of_int n :: rat) < of_int (2 ^ 53)" using assms(3) by (simp only: of_int_less_iff)
      then show ?thesis using assms(2) by simp
    qed
    then have e: "max (exponent \<bar>x\<bar>) (- 1022) \<le> 52" using exponent_le_52 [of x] xp by simp
    define k where "k = nat (52 - max (exponent \<bar>x\<bar>) (- 1022))"
    define q :: rat where "q = power_int 2 (max (exponent \<bar>x\<bar>) (- 1022) - 52)"
    have q: "q = 1 / 2 ^ k" using e by (auto simp: q_def k_def power_int_def field_simps)
    have r: "round_to_double x = of_int (py_round (x / q)) * q"
      using False by (simp add: round_to_double_def q_def Let_def)
    have "x / q \<le> of_int (n * 2 ^ k)" using assms(2) by (simp add: q)
    then have "py_round (x / q) \<le> n * 2 ^ k" by (rule py_round_le)
    then have "(of_int (py_round (x / q)) :: rat) \<le> of_int (n * 2 ^ k)" by (simp only: of_int_le_iff)
    then have "of_int (py_round (x / q)) * q \<le> of_int (n * 2 ^ k) * q"
      by (intro mult_right_mono) (simp_all add: q)
    also have "\<dots> = of_int n" by (simp add: q)
    finally show ?thesis by (simp add: r)
  qed
qed

lemma round_to_double_of_nat:
  assumes "N < 2 ^ 53"
  shows "round_to_double (of_nat N) = of_nat N"
proof (cases "N = 0")
  case True
  then show ?thesis by (simp add: round_to_double_def)
next
  case False
  define x :: rat where "x = of_nat N"
  have xp: "0 < x" using False by (simp add: x_def)
  have "x < 2 ^ 53"
  proof -
    have "(of_nat N :: rat) < of_nat (2 ^ 53)" using assms by (simp only: of_nat_less_iff)
    then show ?thesis by (simp add: x_def)
  qed
  then have e: "max (exponent \<bar>x\<bar>) (- 1022) \<le> 52" using exponent_le_52 [of x] xp by simp
  define k where "k = nat (52 - max (exponent \<bar>x\<bar>) (- 1022))"
  define q :: rat where "q = power_int 2 (max (exponent \<bar>x\<bar>) (- 1022) - 52)"
  have q: "q = 1 / 2 ^ k" using e by (auto simp: q_def k_def power_int_def field_simps)
  have r: "round_to_double x = of_int (py_round (x / q)) * q"
    using xp by (simp add: round_to_double_def q_def Let_def)
  have "x / q = of_int (int N * 2 ^ k)" by (simp add: q x_def)
  then have "py_round (x / q) = int N * 2 ^ k" by (simp only: py_round_of_int)
  then show ?thesis unfolding x_def[symmetric] r by (simp add: q x_def)
qed

lemma num_train_subjects_in_range:
  assumes "N < 2 ^ 53" and "0 < r" and "r < 1"
  shows "num_train_subjects N r = Inr (py_round (round_to_double (of_nat N * r)))"
    and "0 \<le> py_round (round_to_double (of_nat N * r))"
    and "py_round (round_to_double (of_nat N * r)) \<le> int N"
proof -
  have iN: "int N < 2 ^ 53"
  proof -
    have "int N < int (2 ^ 53)" using assms(1) by (simp only: of_nat_less_iff)
    then show ?thesis by simp
  qed
  have small: "(2::rat) ^ 53 < 2 ^ 1024" by simp
  have x0: "0 \<le> of_nat N * r" using assms(2) by simp
  have "of_nat N * r \<le> of_nat N * 1" using assms(3) by (intro mult_left_mono) simp_all
  then have xN: "of_nat N * r \<le> of_int (int N)" by simp
  note b = round_to_double_bounds [OF x0 xN iN]
  have "(of_int (int N) :: rat) < of_int (2 ^ 53)" using iN by (simp only: of_int_less_iff)
  then have Nlt: "(of_nat N :: rat) < 2 ^ 53" by simp
  have f1: "float_result (of_nat N) = Inr (of_nat N)"
    using Nlt small by (simp add: float_result_def round_to_double_of_nat [OF assms(1)])
  have "\<bar>round_to_double (of_nat N * r)\<bar> < 2 ^ 1024" using b Nlt small by simp
  then have f2: "float_result (of_nat N * r) = Inr (round_to_double (of_nat N * r))"
    by (simp add: float_result_def)
  show "num_train_subjects N r = Inr (py_round (round_to_double (of_nat N * r)))"
    by (simp add: num_train_subjects_def f1 f2)
  show "0 \<le> py_round (round_to_double (of_nat N * r))"
    using b(1) by (rule py_round_nonneg)
  show "py_round (round_to_double (of_nat N * r)) \<le> int N"
    using b(2) by (rule py_round_le)
qed

lemma py_slice_take: "0 \<le> m \<Longrightarrow> py_slice xs 0 m = take (nat m) xs"
  by (auto simp: py_slice_def slice_bound_def Let_def min_def)

lemma py_slice_drop:
  "0 \<le> m \<Longrightarrow> m \<le> n \<Longrightarrow> n = int (length xs) \<Longrightarrow> py_slice xs m n = drop (nat m) xs"
  by (auto simp: py_slice_def slice_bound_def Let_def min_def)

lemma random_split_ok:
  assumes "0 \<le> m" "m \<le> int (length ds)" "randperm g (length ds) = (perm, g')" "length perm = length ds"
  shows "random_split randperm ds (m, int (length ds) - m) g =
           Inr ((\<lparr>dataset = ds, indices = take (nat m) perm\<rparr>,
                 \<lparr>dataset = ds, indices = drop (nat m) perm\<rparr>), g')"
proof (cases "int (length ds) = 1")
  case False
  then show ?thesis using assms
    by (simp add: random_split_def Let_def py_slice_take py_slice_drop)
next
  case True
  then have "m = 0 \<or> m = 1" using assms by auto
  then show ?thesis using assms True
    by (auto simp: random_split_def Let_def py_slice_take py_slice_drop)
qed

lemma perm_parts:
  assumes "mset perm = mset [0..<length ss]"
  shows "set (take k perm) \<inter> set (drop k perm) = {}"
    and "mset (map (\<lambda>i. ss ! i) (take k perm) @ map (\<lambda>i. ss ! i) (drop k perm)) = mset ss"
    and "length perm = length ss"
proof -
  have d: "distinct perm" using assms by (metis distinct_upt mset_eq_imp_distinct_iff)
  show "set (take k perm) \<inter> set (drop k perm) = {}"
    using d by (metis append_take_drop_id distinct_append)
  have "mset (map (\<lambda>i. ss ! i) (take k perm) @ map (\<lambda>i. ss ! i) (drop k perm))
      = mset (map (\<lambda>i. ss ! i) perm)" by (metis append_take_drop_id map_append)
  also have "\<dots> = image_mset (\<lambda>i. ss ! i) (mset [0..<length ss])" using assms by simp
  also have "\<dots> = mset (map (\<lambda>i. ss ! i) [0..<length ss])" by simp
  also have "\<dots> = mset ss" by (simp add: map_nth)
  finally show "mset (map (\<lambda>i. ss ! i) (take k perm) @ map (\<lambda>i. ss ! i) (drop k perm)) = mset ss" .
  show "length perm = length ss" using assms by (metis length_upt mset_eq_length minus_nat.diff_0)
qed

text \<open>
  Claim C1. For a list of \<open>N\<close> training subjects (fewer than \<open>2 ^ 53\<close>, as any list in
  memory is) and a ratio strictly between 0 and 1, the split at the head of \<open>setup\<close>
  returns two subsets of the subject list, of sizes \<open>round(N * r)\<close> and
  \<open>N - round(N * r)\<close>: \<open>N * r\<close> is the float product, the double nearest to the exact
  product, and \<open>round\<close> takes it to the nearest integer, a tie going to the even one.
  The index sets of the two subsets are disjoint and together they hold every position,
  hence every subject, exactly once. The permutation is whatever the generator draws,
  as long as it is a permutation of \<open>0, ..., N - 1\<close>.
\<close>

theorem split_allocator_partition:
  assumes "subjects dm = Some ss" and "length ss < 2 ^ 53"
    and "0 < train_val_ratio dm" and "train_val_ratio dm < 1"
    and "mset (fst (randperm g (length ss))) = mset [0..<length ss]"
  shows "\<exists>train val g' product n_train.
      product = round_to_double (of_nat (length ss) * train_val_ratio dm)
    \<and> \<bar>of_int n_train - product\<bar> \<le> 1 / 2
    \<and> (\<bar>of_int n_train - product\<bar> = 1 / 2 \<longrightarrow> even n_train)
    \<and> num_train_subjects (length ss) (train_val_ratio dm) = Inr n_train
    \<and> setup_split randperm dm g = Inr ((train, val), g')
    \<and> dataset train = ss \<and> dataset val = ss
    \<and> int (length (subset_items train)) = n_train
    \<and> int (length (subset_items val)) = int (length ss) - n_train
    \<and> set (indices train) \<inter> set (indices val) = {}
    \<and> mset (indices train @ indices val) = mset [0..<length ss]
    \<and> mset (subset_items train @ subset_items val) = mset ss"
proof -
  define N where "N = length ss"
  define r where "r = train_val_ratio dm"
  define product where "product = round_to_double (of_nat N * r)"
  define m where "m = py_round product"
  obtain perm g' where rp: "randperm g N = (perm, g')" by (cases "randperm g N")
  have pm: "mset perm = mset [0..<length ss]" using assms(5) rp by (simp add: N_def)
  have NN: "N < 2 ^ 53" and r0: "0 < r" and r1: "r < 1" using assms by (simp_all add: N_def r_def)
  note nt = num_train_subjects_in_range [OF NN r0 r1]
  have nts: "num_train_subjects N r = Inr m" using nt(1) by (simp add: m_def product_def)
  have m0: "0 \<le> m" using nt(2) by (simp add: m_def product_def)
  have mN: "m \<le> int N" using nt(3) by (simp add: m_def product_def)
  have near: "\<bar>of_int m - product\<bar> \<le> 1 / 2 \<and> (\<bar>of_int m - product\<bar> = 1 / 2 \<longrightarrow> even m)"
    unfolding m_def by (rule py_round_nearest)
  have len: "length perm = length ss" using perm_parts(3) [OF pm] .
  have split: "setup_split randperm dm g =
        Inr ((\<lparr>dataset = ss, indices = take (nat m) perm\<rparr>,
              \<lparr>dataset = ss, indices = drop (nat m) perm\<rparr>), g')"
    using random_split_ok [of m ss randperm g perm g'] m0 mN rp len assms(1) nts
    by (simp add: setup_split_def Let_def N_def r_def)
  have idx: "mset (take (nat m) perm @ drop (nat m) perm) = mset [0..<length ss]"
    using pm by (simp only: append_take_drop_id)
  have l1: "int (length (take (nat m) perm)) = m"
    using m0 mN len by (simp add: N_def)
  have l2: "int (length (drop (nat m) perm)) = int (length ss) - m"
    using m0 mN len by (simp add: N_def)
  have sub: "mset (subset_items \<lparr>dataset = ss, indices = take (nat m) perm\<rparr>
                   @ subset_items \<lparr>dataset = ss, indices = drop (nat m) perm\<rparr>) = mset ss"
    using perm_parts(2) [OF pm, of "nat m"] by (simp add: subset_items_def)
  have dis: "set (take (nat m) perm) \<inter> set (drop (nat m) perm) = {}"
    using perm_parts(1) [OF pm, of "nat m"] .
  show ?thesis
    apply (rule exI [of _ "\<lparr>dataset = ss, indices = take (nat m) perm\<rparr>"])
    apply (rule exI [of _ "\<lparr>dataset = ss, indices = drop (nat m) perm\<rparr>"])
    apply (rule exI [of _ g'])
    apply (rule exI [of _ product])
    apply (rule exI [of _ m])
    using near nts split idx l1 l2 sub dis
    apply (simp add: subset_items_def N_def r_def product_def del: mset_append)
    done
qed

lemma example_perm: "mset (fst (rot_randperm 0 (length example_subjects))) = mset [0..<length example_subjects]"
  by (simp add: rot_randperm_def)

lemma num_train_eval:
  assumes "N < 2 ^ 53" and "0 < r" and "r < 1"
    and "py_round (round_to_double (of_nat N * r)) = m"
  shows "num_train_subjects N r = Inr m"
  using num_train_subjects_in_range(1) [OF assms(1-3)] assms(4) by simp

lemma double_4_5: "round_to_double (4 / 5) = 3602879701896397 / 4503599627370496"
  by code_simp

lemma double_7_10: "round_to_double (7 / 10) = 3152519739159347 / 4503599627370496"
  by code_simp

lemma double_1_10: "round_to_double (1 / 10) = 3602879701896397 / 36028797018963968"
  by code_simp

lemma double_9_10: "round_to_double (9 / 10) = 8106479329266893 / 9007199254740992"
  by code_simp

lemma double_1_2: "round_to_double (1 / 2) = 1 / 2"
  by code_simp

lemma num_train_3_0_8: "num_train_subjects 3 (round_to_double (4 / 5)) = Inr 2"
proof (rule num_train_eval)
  show "py_round (round_to_double (of_nat 3 * round_to_double (4 / 5))) = 2" by code_simp
qed (simp_all add: double_4_5)

lemma num_train_3: "num_train_subjects (Suc (Suc (Suc 0))) (round_to_double (4 / 5)) = Inr 2"
  using num_train_3_0_8 by (simp add: numeral_3_eq_3)

text \<open>
  Inputs that tell the float product from the exact one, rounding from truncation, and
  ties to even from ties upwards: \<open>45 * 0.7\<close> is the double just below \<open>31.5\<close>;
  \<open>5 * 0.1\<close> is the double \<open>0.5\<close> although \<open>0.1\<close> lies above one tenth; \<open>3 * 0.9\<close>
  rounds up to 3; \<open>5 * 0.5\<close> and \<open>7 * 0.5\<close> are ties and go to 2 and to 4.
\<close>

lemma num_train_45_0_7: "num_train_subjects 45 (round_to_double (7 / 10)) = Inr 31"
proof (rule num_train_eval)
  show "py_round (round_to_double (of_nat 45 * round_to_double (7 / 10))) = 31" by code_simp
qed (simp_all add: double_7_10)

lemma num_train_5_0_1: "num_train_subjects 5 (round_to_double (1 / 10)) = Inr 0"
proof (rule num_train_eval)
  show "py_round (round_to_double (of_nat 5 * round_to_double (1 / 10))) = 0" by code_simp
qed (simp_all add: double_1_10)

lemma num_train_3_0_9: "num_train_subjects 3 (round_to_double (9 / 10)) = Inr 3"
proof (rule num_train_eval)
  show "py_round (round_to_double (of_nat 3 * round_to_double (9 / 10))) = 3" by code_simp
qed (simp_all add: double_9_10)

lemma num_train_5_0_5: "num_train_subjects 5 (round_to_double (1 / 2)) = Inr 2"
proof (rule num_train_eval)
  show "py_round (round_to_double (of_nat 5 * round_to_double (1 / 2))) = 2" by code_simp
qed (simp_all add: double_1_2)

lemma num_train_7_0_5: "num_train_subjects 7 (round_to_double (1 / 2)) = Inr 4"
proof (rule num_train_eval)
  show "py_round (round_to_double (of_nat 7 * round_to_double (1 / 2))) = 4" by code_simp
qed (simp_all add: double_1_2)

lemmas num_train_pins =
  num_train_45_0_7 num_train_5_0_1 num_train_3_0_9 num_train_5_0_5 num_train_7_0_5

lemma example_ratio:
  "train_val_ratio example_dm3 = round_to_double (4 / 5)"
  "0 < train_val_ratio example_dm3" "train_val_ratio example_dm3 < 1"
  by (simp_all add: example_dm3_def example_dm_def init_def double_4_5)

theorem split_allocator_partition_witness:
  "subjects example_dm3 = Some example_subjects \<and> length example_subjects < 2 ^ 53
   \<and> 0 < train_val_ratio example_dm3 \<and> train_val_ratio example_dm3 < 1
   \<and> mset (fst (rot_randperm 0 (length example_subjects))) = mset [0..<length example_subjects]
   \<and> length example_subjects = 3
   \<and> train_val_ratio example_dm3 = 3602879701896397 / 4503599627370496
   \<and> (\<exists>train val g'.
      setup_split rot_randperm example_dm3 0 = Inr ((train, val), g')
    \<and> dataset train = example_subjects \<and> dataset val = example_subjects
    \<and> int (length (subset_items train)) = 2
    \<and> int (length (subset_items val)) = 1
    \<and> set (indices train) \<inter> set (indices val) = {}
    \<and> mset (indices train @ indices val) = mset [0..<length example_subjects]
    \<and> mset (subset_items train @ subset_items val) = mset example_subjects)
   \<and> num_train_subjects 45 (round_to_double (7 / 10)) = Inr 31
   \<and> num_train_subjects 5 (round_to_double (1 / 10)) = Inr 0
   \<and> num_train_subjects 3 (round_to_double (9 / 10)) = Inr 3
   \<and> num_train_subjects 5 (round_to_double (1 / 2)) = Inr 2
   \<and> num_train_subjects 7 (round_to_double (1 / 2)) = Inr 4"
proof -
  have h1: "subjects example_dm3 = Some example_subjects" by (simp add: example_dm3_def)
  have l: "length example_subjects = 3" by (simp add: example_subjects_def)
  have h2: "length example_subjects < 2 ^ 53" by (simp add: l)
  have n: "num_train_subjects (length example_subjects) (train_val_ratio example_dm3) = Inr 2"
    using num_train_3 by (simp add: example_ratio(1) example_subjects_def)
  from split_allocator_partition
         [where dm = example_dm3 and ss = example_subjects and randperm = rot_randperm and g = 0,
          OF h1 h2 example_ratio(2,3) example_perm]
  obtain train val g' n_train where
    a: "num_train_subjects (length example_subjects) (train_val_ratio example_dm3) = Inr n_train"
    and b: "setup_split rot_randperm example_dm3 0 = Inr ((train, val), g')"
      "dataset train = example_subjects" "dataset val = example_subjects"
      "int (length (subset_items train)) = n_train"
      "int (length (subset_items val)) = int (length example_subjects) - n_train"
      "set (indices train) \<inter> set (indices val) = {}"
      "mset (indices train @ indices val) = mset [0..<length example_subjects]"
      "mset (subset_items train @ subset_items val) = mset example_subjects"
    by blast
  from a n have n2: "n_train = 2" by simp
  have c: "\<exists>train val g'.
      setup_split rot_randperm example_dm3 0 = Inr ((train, val), g')
    \<and> dataset train = example_subjects \<and> dataset val = example_subjects
    \<and> int (length (subset_items train)) = 2
    \<and> int (length (subset_items val)) = 1
    \<and> set (indices train) \<inter> set (indices val) = {}
    \<and> mset (indices train @ indices val) = mset [0..<length example_subjects]
    \<and> mset (subset_items train @ subset_items val) = mset example_subjects"
    using b unfolding n2 l by (intro exI [of _ train] exI [of _ val] exI [of _ g']) simp
  have r: "train_val_ratio example_dm3 = 3602879701896397 / 4503599627370496"
    by (simp add: example_ratio(1) double_4_5)
  show ?thesis
    using h1 h2 example_ratio(2,3) example_perm l r c num_train_pins by blast
qed

lemma upt_3: "[0..<3] = [0, 1, 2]"
  by (simp add: upt_rec)

lemma example_split:
  "setup_split rot_randperm example_dm3 0 =
     Inr ((\<lparr>dataset = example_subjects, indices = [2, 1]\<rparr>,
           \<lparr>dataset = example_subjects, indices = [0]\<rparr>), 1)"
  by (simp add: setup_split_def example_dm3_def example_dm_def init_def example_subjects_def
      num_train_3 upt_3 Let_def random_split_def rot_randperm_def py_slice_def slice_bound_def)

lemma example_split_big:
  "setup_split rot_randperm example_dm3_big 0 =
     Inr ((\<lparr>dataset = example_subjects, indices = [2, 1]\<rparr>,
           \<lparr>dataset = example_subjects, indices = [0]\<rparr>), 1)"
  by (simp add: setup_split_def example_dm3_big_def example_dm_def init_def example_subjects_def
      num_train_3 upt_3 Let_def random_split_def rot_randperm_def py_slice_def slice_bound_def)

lemma example_preprocess:
  "get_preprocessing_transform example_spatial_shape example_dm3 =
     Inr (Compose [RescaleIntensity (- 1) 1, CropOrPad (36, 51, 35), EnsureShapeMultiple 8, OneHot])"
  by (simp add: get_preprocessing_transform_def get_max_shape_def example_dm3_def
      example_subjects_def example_spatial_shape_def training_subject_def test_subject_def)

lemma example_preprocess_big:
  "get_preprocessing_transform example_spatial_shape example_dm3_big =
     Inr (Compose [RescaleIntensity (- 1) 1, CropOrPad (64, 51, 64), EnsureShapeMultiple 8, OneHot])"
  by (simp add: get_preprocessing_transform_def get_max_shape_def example_dm3_big_def
      example_subjects_def example_spatial_shape_def training_subject_def test_subject_def)

lemma example_setup:
  "\<exists>dm'. datamodule_setup rot_randperm example_spatial_shape example_dm3 0 = Inr (dm', 1)
       \<and> preprocess dm' = Some (Compose [RescaleIntensity (- 1) 1, CropOrPad (36, 51, 35), EnsureShapeMultiple 8, OneHot])"
  by (simp add: datamodule_setup_def example_split example_preprocess Let_def SubjectsDataset_def
      subset_items_def example_subjects_def)
     (simp add: example_dm3_def SubjectsDataset_def)

lemma example_setup_big:
  "\<exists>dm'. datamodule_setup rot_randperm example_spatial_shape example_dm3_big 0 = Inr (dm', 1)
       \<and> preprocess dm' = Some (Compose [RescaleIntensity (- 1) 1, CropOrPad (64, 51, 64), EnsureShapeMultiple 8, OneHot])"
  by (simp add: datamodule_setup_def example_split_big example_preprocess_big Let_def SubjectsDataset_def
      subset_items_def example_subjects_def)
     (simp add: example_dm3_big_def SubjectsDataset_def)


subsection \<open>Transform pipelines\<close>

lemma spatial_shapes_Inr:
  "spatial_shapes sh ss = Inr shapes \<Longrightarrow> map sh ss = map Inr shapes"
  by (induction ss arbitrary: shapes) (auto split: sum.splits)

lemma max_axis0_Max:
  "shapes \<noteq> [] \<Longrightarrow>
   max_axis0 shapes =
     (Max (fst ` set shapes), Max ((fst \<circ> snd) ` set shapes), Max ((snd \<circ> snd) ` set shapes))"
proof (induction shapes rule: max_axis0.induct)
  case 1
  then show ?case by simp
next
  case (2 x)
  then show ?case by (cases x) simp
next
  case (3 a b c y ys)
  then show ?case by (simp split: prod.splits)
qed

lemma get_preprocessing_transform_InrD:
  assumes "get_preprocessing_transform sh dm = Inr pre"
  shows "\<exists>ss ts shapes.
      subjects dm = Some ss \<and> test_subjects dm = Some ts \<and> shapes \<noteq> []
    \<and> map sh (ss @ ts) = map Inr shapes
    \<and> pre = Compose [RescaleIntensity (- 1) 1,
                      CropOrPad (Max (fst ` set shapes), Max ((fst \<circ> snd) ` set shapes),
                                 Max ((snd \<circ> snd) ` set shapes)),
                      EnsureShapeMultiple 8, OneHot]"
proof -
  from assms obtain ss ts shapes where a: "subjects dm = Some ss" "test_subjects dm = Some ts"
    and ne: "ss @ ts \<noteq> []" and sh: "spatial_shapes sh (ss @ ts) = Inr shapes"
    and pre: "pre = Compose [RescaleIntensity (- 1) 1, CropOrPad (max_axis0 shapes),
                             EnsureShapeMultiple 8, OneHot]"
    by (auto simp: get_preprocessing_transform_def get_max_shape_def
        split: option.splits sum.splits if_splits)
  have m: "map sh (ss @ ts) = map Inr shapes" using sh by (rule spatial_shapes_Inr)
  then have "length (ss @ ts) = length shapes" by (metis length_map)
  then have "shapes \<noteq> []" using ne by auto
  then show ?thesis using a m pre max_axis0_Max by blast
qed

lemma datamodule_setup_InrD:
  assumes "datamodule_setup rp sh dm g = Inr (dm', g')"
  shows "\<exists>train val pre ts.
      setup_split rp dm g = Inr ((train, val), g')
    \<and> get_preprocessing_transform sh dm = Inr pre
    \<and> test_subjects dm = Some ts
    \<and> subset_items train \<noteq> [] \<and> subset_items val \<noteq> [] \<and> ts \<noteq> []
    \<and> dm' = dm\<lparr>preprocess := Some pre,
                 transform := Some (Compose [pre, get_augmentation_transform]),
                 train_set := Some \<lparr>ds_subjects = subset_items train,
                                     ds_transform = Some (Compose [pre, get_augmentation_transform])\<rparr>,
                 val_set := Some \<lparr>ds_subjects = subset_items val, ds_transform = Some pre\<rparr>,
                 test_set := Some \<lparr>ds_subjects = ts, ds_transform = Some pre\<rparr>\<rparr>"
  using assms
  by (auto simp: datamodule_setup_def Let_def SubjectsDataset_def
      split: sum.splits option.splits prod.splits if_splits)

text \<open>
  Claim C5. After \<open>setup\<close>, the validation and the test dataset apply exactly the four
  preprocessing steps, in the order intensity rescaling, crop-or-pad to the target
  shape, padding to a multiple of 8, one-hot encoding; the training dataset applies
  the same four steps in the same order and after them the five augmentation steps.
\<close>

theorem preprocessing_then_augmentation:
  assumes "datamodule_setup rp sh dm g = Inr (dm', g')"
  shows "\<exists>target tr va te.
      train_set dm' = Some tr \<and> val_set dm' = Some va \<and> test_set dm' = Some te
    \<and> map_option steps (ds_transform va) =
        Some [RescaleIntensity (- 1) 1, CropOrPad target, EnsureShapeMultiple 8, OneHot]
    \<and> map_option steps (ds_transform te) =
        Some [RescaleIntensity (- 1) 1, CropOrPad target, EnsureShapeMultiple 8, OneHot]
    \<and> map_option steps (ds_transform tr) =
        Some ([RescaleIntensity (- 1) 1, CropOrPad target, EnsureShapeMultiple 8, OneHot]
              @ [RandomAffine, RandomGamma (1 / 2), RandomNoise (1 / 2), RandomMotion (1 / 10),
                 RandomBiasField (1 / 4)])"
proof -
  from datamodule_setup_InrD [OF assms] obtain train val pre ts where
    p: "get_preprocessing_transform sh dm = Inr pre"
    and dm': "dm' = dm\<lparr>preprocess := Some pre,
                 transform := Some (Compose [pre, get_augmentation_transform]),
                 train_set := Some \<lparr>ds_subjects = subset_items train,
                                     ds_transform = Some (Compose [pre, get_augmentation_transform])\<rparr>,
                 val_set := Some \<lparr>ds_subjects = subset_items val, ds_transform = Some pre\<rparr>,
                 test_set := Some \<lparr>ds_subjects = ts, ds_transform = Some pre\<rparr>\<rparr>"
    by blast
  from get_preprocessing_transform_InrD [OF p] obtain target where
    pre: "pre = Compose [RescaleIntensity (- 1) 1, CropOrPad target, EnsureShapeMultiple 8, OneHot]"
    by blast
  show ?thesis
    unfolding dm' pre by (rule exI [of _ target]) (simp add: get_augmentation_transform_def)
qed

theorem preprocessing_then_augmentation_witness:
  "\<exists>dm' g'. datamodule_setup rot_randperm example_spatial_shape example_dm3 0 = Inr (dm', g')
    \<and> (\<exists>target tr va te.
      train_set dm' = Some tr \<and> val_set dm' = Some va \<and> test_set dm' = Some te
    \<and> map_option steps (ds_transform va) =
        Some [RescaleIntensity (- 1) 1, CropOrPad target, EnsureShapeMultiple 8, OneHot]
    \<and> map_option steps (ds_transform te) =
        Some [RescaleIntensity (- 1) 1, CropOrPad target, EnsureShapeMultiple 8, OneHot]
    \<and> map_option steps (ds_transform tr) =
        Some ([RescaleIntensity (- 1) 1, CropOrPad target, EnsureShapeMultiple 8, OneHot]
              @ [RandomAffine, RandomGamma (1 / 2), RandomNoise (1 / 2), RandomMotion (1 / 10),
                 RandomBiasField (1 / 4)]))"
proof -
  obtain dm' where h: "datamodule_setup rot_randperm example_spatial_shape example_dm3 0 = Inr (dm', 1)"
    using example_setup by blast
  from preprocessing_then_augmentation [OF h] h show ?thesis by blast
qed

text \<open>
  Claim C3. The target shape of the crop-or-pad step is the maximum, axis by axis, of
  the spatial shapes of the training subjects followed by the test subjects; it is
  computed once in \<open>setup\<close>, and the one preprocessing pipeline that holds it is the
  pipeline of all three datasets. So a further test subject can change the target for
  every split: the two example data modules differ in one test subject only and get
  different preprocessing pipelines.
\<close>

theorem crop_or_pad_target_is_pool_maximum:
  assumes "datamodule_setup rp sh dm g = Inr (dm', g')"
  shows "(\<exists>ss ts shapes pre.
            subjects dm = Some ss \<and> test_subjects dm = Some ts
          \<and> map sh (ss @ ts) = map Inr shapes \<and> shapes \<noteq> []
          \<and> pre = Compose [RescaleIntensity (- 1) 1,
                            CropOrPad (Max (fst ` set shapes), Max ((fst \<circ> snd) ` set shapes),
                                       Max ((snd \<circ> snd) ` set shapes)),
                            EnsureShapeMultiple 8, OneHot]
          \<and> preprocess dm' = Some pre
          \<and> map_option ds_transform (train_set dm') = Some (Some (Compose [pre, get_augmentation_transform]))
          \<and> map_option ds_transform (val_set dm') = Some (Some pre)
          \<and> map_option ds_transform (test_set dm') = Some (Some pre))
       \<and> (\<exists>dmA dmB gA gB.
            subjects example_dm3_big = subjects example_dm3
          \<and> test_subjects example_dm3_big =
              map_option (\<lambda>ts. ts @ [test_subject [''Task'', ''imagesTs'', ''big.nii'']])
                (test_subjects example_dm3)
          \<and> datamodule_setup rot_randperm example_spatial_shape example_dm3 0 = Inr (dmA, gA)
          \<and> datamodule_setup rot_randperm example_spatial_shape example_dm3_big 0 = Inr (dmB, gB)
          \<and> preprocess dmA \<noteq> preprocess dmB)"
proof -
  from datamodule_setup_InrD [OF assms] obtain train val pre ts where
    p: "get_preprocessing_transform sh dm = Inr pre"
    and dm': "dm' = dm\<lparr>preprocess := Some pre,
                 transform := Some (Compose [pre, get_augmentation_transform]),
                 train_set := Some \<lparr>ds_subjects = subset_items train,
                                     ds_transform = Some (Compose [pre, get_augmentation_transform])\<rparr>,
                 val_set := Some \<lparr>ds_subjects = subset_items val, ds_transform = Some pre\<rparr>,
                 test_set := Some \<lparr>ds_subjects = ts, ds_transform = Some pre\<rparr>\<rparr>"
    by blast
  have first: "\<exists>ss ts shapes pre.
            subjects dm = Some ss \<and> test_subjects dm = Some ts
          \<and> map sh (ss @ ts) = map Inr shapes \<and> shapes \<noteq> []
          \<and> pre = Compose [RescaleIntensity (- 1) 1,
                            CropOrPad (Max (fst ` set shapes), Max ((fst \<circ> snd) ` set shapes),
                                       Max ((snd \<circ> snd) ` set shapes)),
                            EnsureShapeMultiple 8, OneHot]
          \<and> preprocess dm' = Some pre
          \<and> map_option ds_transform (train_set dm') = Some (Some (Compose [pre, get_augmentation_transform]))
          \<and> map_option ds_transform (val_set dm') = Some (Some pre)
          \<and> map_option ds_transform (test_set dm') = Some (Some pre)"
    using get_preprocessing_transform_InrD [OF p] unfolding dm' by auto
  obtain dmA where a: "datamodule_setup rot_randperm example_spatial_shape example_dm3 0 = Inr (dmA, 1)"
    "preprocess dmA = Some (Compose [RescaleIntensity (- 1) 1, CropOrPad (36, 51, 35), EnsureShapeMultiple 8, OneHot])"
    using example_setup by blast
  obtain dmB where b: "datamodule_setup rot_randperm example_spatial_shape example_dm3_big 0 = Inr (dmB, 1)"
    "preprocess dmB = Some (Compose [RescaleIntensity (- 1) 1, CropOrPad (64, 51, 64), EnsureShapeMultiple 8, OneHot])"
    using example_setup_big by blast
  have c: "subjects example_dm3_big = subjects example_dm3"
    "test_subjects example_dm3_big =
              map_option (\<lambda>ts. ts @ [test_subject [''Task'', ''imagesTs'', ''big.nii'']])
                (test_subjects example_dm3)"
    by (simp_all add: example_dm3_def example_dm3_big_def)
  have "preprocess dmA \<noteq> preprocess dmB" using a(2) b(2) by simp
  then show ?thesis using first a(1) b(1) c by blast
qed

theorem crop_or_pad_target_is_pool_maximum_witness:
  "\<exists>dm' g'. datamodule_setup rot_randperm example_spatial_shape example_dm3 0 = Inr (dm', g')
     \<and> (\<exists>ss ts shapes pre.
            subjects example_dm3 = Some ss \<and> test_subjects example_dm3 = Some ts
          \<and> map example_spatial_shape (ss @ ts) = map Inr shapes \<and> shapes \<noteq> []
          \<and> pre = Compose [RescaleIntensity (- 1) 1,
                            CropOrPad (Max (fst ` set shapes), Max ((fst \<circ> snd) ` set shapes),
                                       Max ((snd \<circ> snd) ` set shapes)),
                            EnsureShapeMultiple 8, OneHot]
          \<and> preprocess dm' = Some pre
          \<and> map_option ds_transform (val_set dm') = Some (Some pre))"
proof -
  obtain dm' where h: "datamodule_setup rot_randperm example_spatial_shape example_dm3 0 = Inr (dm', 1)"
    using example_setup by blast
  from crop_or_pad_target_is_pool_maximum [OF h] h show ?thesis by blast
qed

subsection \<open>Batch loaders\<close>

lemma chunks_Nil [simp]: "chunks n [] = []"
  by (simp add: chunks.simps [of n "[]"])

lemma concat_chunks: "0 < n \<Longrightarrow> concat (chunks n xs) = xs"
proof (induction n xs rule: chunks.induct)
  case (1 n xs)
  show ?case
  proof (cases "xs = []")
    case True
    then show ?thesis by (simp add: chunks.simps [of n xs])
  next
    case False
    then have "chunks n xs = take n xs # chunks n (drop n xs)"
      using "1.prems" by (simp add: chunks.simps [of n xs])
    moreover have "concat (chunks n (drop n xs)) = drop n xs"
      using "1.IH" "1.prems" False by simp
    ultimately show ?thesis by simp
  qed
qed

lemma chunks_sizes: "0 < n \<Longrightarrow> b \<in> set (chunks n xs) \<Longrightarrow> 0 < length b \<and> length b \<le> n"
proof (induction n xs rule: chunks.induct)
  case (1 n xs)
  show ?case
  proof (cases "xs = []")
    case True
    then show ?thesis using "1.prems" by (simp add: chunks.simps [of n xs])
  next
    case False
    then have c: "chunks n xs = take n xs # chunks n (drop n xs)"
      using "1.prems" by (simp add: chunks.simps [of n xs])
    then consider "b = take n xs" | "b \<in> set (chunks n (drop n xs))" using "1.prems" by auto
    then show ?thesis
    proof cases
      case 1
      then show ?thesis using False "1.prems" by simp
    next
      case 2
      then show ?thesis using "1.IH" "1.prems" False by simp
    qed
  qed
qed

lemma chunks_full: "0 < n \<Longrightarrow> b \<in> set (butlast (chunks n xs)) \<Longrightarrow> length b = n"
proof (induction n xs rule: chunks.induct)
  case (1 n xs)
  show ?case
  proof (cases "xs = []")
    case True
    then show ?thesis using "1.prems" by (simp add: chunks.simps [of n xs])
  next
    case False
    then have c: "chunks n xs = take n xs # chunks n (drop n xs)"
      using "1.prems" by (simp add: chunks.simps [of n xs])
    show ?thesis
    proof (cases "chunks n (drop n xs) = []")
      case True
      then show ?thesis using c "1.prems" by simp
    next
      case ne: False
      then have dne: "drop n xs \<noteq> []"
        by auto
      from ne c have "butlast (chunks n xs) = take n xs # butlast (chunks n (drop n xs))"
        by simp
      then consider "b = take n xs" | "b \<in> set (butlast (chunks n (drop n xs)))"
        using "1.prems" by auto
      then show ?thesis
      proof cases
        case 1
        then show ?thesis using dne by simp
      next
        case 2
        then show ?thesis using "1.IH" "1.prems" False by simp
      qed
    qed
  qed
qed

lemma DataLoader_loads_in_order:
  assumes "0 < bs"
  shows "loads_in_order (DataLoader (Some ds) bs) ds bs"
proof -
  have n: "0 < nat bs" using assms by simp
  have "epoch_batches \<lparr>dl_dataset = Some ds, dl_batch_size = bs, dl_shuffle = False\<rparr> perm
          = Inr (chunks (nat bs) (ds_subjects ds))" for perm
    by (simp add: epoch_batches_def map_nth)
  moreover have "concat (chunks (nat bs) (ds_subjects ds)) = ds_subjects ds"
    using n by (rule concat_chunks)
  moreover have "\<forall>b \<in> set (chunks (nat bs) (ds_subjects ds)). 0 < length b \<and> int (length b) \<le> bs"
  proof
    fix b assume "b \<in> set (chunks (nat bs) (ds_subjects ds))"
    then have "0 < length b \<and> length b \<le> nat bs" by (rule chunks_sizes [OF n])
    then show "0 < length b \<and> int (length b) \<le> bs" using assms by linarith
  qed
  moreover have "\<forall>b \<in> set (butlast (chunks (nat bs) (ds_subjects ds))). int (length b) = bs"
  proof
    fix b assume "b \<in> set (butlast (chunks (nat bs) (ds_subjects ds)))"
    then have "length b = nat bs" by (rule chunks_full [OF n])
    then show "int (length b) = bs" using assms by linarith
  qed
  ultimately show ?thesis
    using assms unfolding loads_in_order_def DataLoader_def by simp
qed

lemma datamodule_setup_sets:
  assumes "datamodule_setup rp sh dm g = Inr (dm', g')"
  shows "batch_size dm' = batch_size dm
       \<and> (\<exists>tr va te. train_set dm' = Some tr \<and> val_set dm' = Some va \<and> test_set dm' = Some te)"
  using datamodule_setup_InrD [OF assms] by auto

text \<open>
  Claim C9. Each of the three loaders of the data module is built with the batch size
  of the data module and without shuffling: every pass over it, whatever permutation a
  shuffling sampler would have drawn, yields the subjects of its dataset in the order
  of the dataset, in batches of the batch size (the last one possibly shorter). So the
  training loader yields the same order in every epoch.
\<close>

theorem loaders_sequential_fixed_batch:
  assumes "train_set dm = Some tr" and "val_set dm = Some va" and "test_set dm = Some te"
    and "0 < batch_size dm"
  shows "loads_in_order (train_dataloader dm) tr (batch_size dm)
       \<and> loads_in_order (val_dataloader dm) va (batch_size dm)
       \<and> loads_in_order (test_dataloader dm) te (batch_size dm)
       \<and> (\<forall>dl perm perm'. train_dataloader dm = Inr dl \<longrightarrow>
             epoch_batches dl perm = epoch_batches dl perm')"
  using assms DataLoader_loads_in_order [OF assms(4)]
  by (auto simp: train_dataloader_def val_dataloader_def test_dataloader_def
      DataLoader_def epoch_batches_def)

theorem loaders_sequential_fixed_batch_witness:
  "\<exists>dm g' tr va te.
      datamodule_setup rot_randperm example_spatial_shape example_dm3 0 = Inr (dm, g')
    \<and> train_set dm = Some tr \<and> val_set dm = Some va \<and> test_set dm = Some te
    \<and> 0 < batch_size dm
    \<and> loads_in_order (train_dataloader dm) tr (batch_size dm)
    \<and> loads_in_order (val_dataloader dm) va (batch_size dm)
    \<and> loads_in_order (test_dataloader dm) te (batch_size dm)
    \<and> (\<forall>dl perm perm'. train_dataloader dm = Inr dl \<longrightarrow>
          epoch_batches dl perm = epoch_batches dl perm')"
proof -
  obtain dm where h: "datamodule_setup rot_randperm example_spatial_shape example_dm3 0 = Inr (dm, 1)"
    using example_setup by blast
  from datamodule_setup_sets [OF h] obtain tr va te where
    s: "train_set dm = Some tr" "val_set dm = Some va" "test_set dm = Some te"
    and b: "batch_size dm = batch_size example_dm3" by blast
  have p: "0 < batch_size dm"
    unfolding b by (simp add: example_dm3_def example_dm_def init_def)
  from loaders_sequential_fixed_batch [OF s p] h s p show ?thesis by blast
qed

subsection \<open>Training and validation step\<close>

text \<open>
  Claim C7. On the same batch, with the same network and loss, the training step and
  the validation step either fail with the same error or return the same loss, the
  loss of the network's output on the tensor under \<open>image\<close> against the tensor under
  \<open>label\<close>. They differ in what they log: the entry is named \<open>train_loss\<close> and shown in
  the progress bar in one, named \<open>val_loss\<close> and not shown there in the other, with the
  same value and the same batch size. Neither hook switches gradient tracking itself;
  that is left to the training loop that calls them.
\<close>

theorem validation_step_same_loss:
  "(\<exists>e. training_step m len batch i logged = Inl e \<and> validation_step m len batch j logged = Inl e)
   \<or> (\<exists>x y image_fields label_fields y_hat loss.
          batch ''image'' = Some image_fields \<and> image_fields ''data'' = Some x
        \<and> batch ''label'' = Some label_fields \<and> label_fields ''data'' = Some y
        \<and> net m x = Inr y_hat \<and> criterion m y_hat y = Inr loss
        \<and> training_step m len batch i logged =
            Inr (loss, logged @ [\<lparr>log_name = ''train_loss'', log_value = loss,
                                   log_prog_bar = True, log_batch_size = len y\<rparr>])
        \<and> validation_step m len batch j logged =
            Inr (loss, logged @ [\<lparr>log_name = ''val_loss'', log_value = loss,
                                   log_prog_bar = False, log_batch_size = len y\<rparr>]))"
  by (auto simp: training_step_def validation_step_def infer_batch_def prepare_batch_def
      split: option.splits sum.splits)

theorem validation_step_same_loss_witness:
  "training_step example_model nat example_batch 0 [] =
     Inr (4, [\<lparr>log_name = ''train_loss'', log_value = 4, log_prog_bar = True, log_batch_size = 2\<rparr>])
   \<and> validation_step example_model nat example_batch 0 [] =
     Inr (4, [\<lparr>log_name = ''val_loss'', log_value = 4, log_prog_bar = False, log_batch_size = 2\<rparr>])"
  using validation_step_same_loss [of example_model nat example_batch 0 "[]" 0]
  by (simp add: training_step_def validation_step_def infer_batch_def prepare_batch_def
      example_model_def example_batch_def)

subsection \<open>One-hot encoding\<close>






subsection \<open>Seeding of the split\<close>

lemma script_run_seeded:
  "script_run manual_seed randperm spatial_shape fetch g1 fs =
   script_run manual_seed randperm spatial_shape fetch g2 fs"
  by (simp add: script_run_def set_determinism_def)

lemma script_run_InrD:
  assumes "script_run manual_seed randperm spatial_shape fetch g0 fs = Inr (data, g', fs')"
  shows "\<exists>data1 train val.
           prepare_data fetch script_data fs = Inr (data1, fs')
         \<and> datamodule_setup randperm spatial_shape data1 (manual_seed (2 ^ 32 - 1)) = Inr (data, g')
         \<and> setup_split randperm data1 (manual_seed (2 ^ 32 - 1)) = Inr ((train, val), g')
         \<and> map_option ds_subjects (train_set data) = Some (subset_items train)
         \<and> map_option ds_subjects (val_set data) = Some (subset_items val)"
proof -
  from assms obtain data1 where
    p: "prepare_data fetch script_data fs = Inr (data1, fs')"
    and st: "datamodule_setup randperm spatial_shape data1 (manual_seed (2 ^ 32 - 1)) = Inr (data, g')"
    by (auto simp: script_run_def set_determinism_def NP_MAX_def Let_def
        split: sum.splits prod.splits)
  from datamodule_setup_InrD [OF st] obtain train val where
    "setup_split randperm data1 (manual_seed (2 ^ 32 - 1)) = Inr ((train, val), g')"
    "map_option ds_subjects (train_set data) = Some (subset_items train)"
    "map_option ds_subjects (val_set data) = Some (subset_items val)"
    by auto
  then show ?thesis using p st by blast
qed

lemma example_split_state_1:
  "setup_split rot_randperm example_dm3 (Suc 0) =
     Inr ((\<lparr>dataset = example_subjects, indices = [0, 2]\<rparr>,
           \<lparr>dataset = example_subjects, indices = [1]\<rparr>), 2)"
  by (simp add: setup_split_def example_dm3_def example_dm_def init_def example_subjects_def
      num_train_3 upt_3 Let_def random_split_def rot_randperm_def py_slice_def slice_bound_def
      rotate1_def)

lemma hippocampus_listing:
  "download_data no_fetch script_data hippocampus_fs =
     Inr (([[''Task04_Hippocampus'', ''imagesTr'', ''hippocampus_001.nii.gz''],
            [''Task04_Hippocampus'', ''imagesTr'', ''hippocampus_003.nii.gz''],
            [''Task04_Hippocampus'', ''imagesTr'', ''hippocampus_004.nii.gz'']],
           [[''Task04_Hippocampus'', ''labelsTr'', ''hippocampus_001.nii.gz''],
            [''Task04_Hippocampus'', ''labelsTr'', ''hippocampus_003.nii.gz''],
            [''Task04_Hippocampus'', ''labelsTr'', ''hippocampus_004.nii.gz'']],
           [[''Task04_Hippocampus'', ''imagesTs'', ''hippocampus_002.nii.gz'']]), hippocampus_fs)"
  by (simp add: download_data_def script_data_def init_def is_dir_def hippocampus_fs_def
      get_niis_def glob_nii_def fnmatch_nii_def startswith_def path_name_def)

lemma hippocampus_prepare_data:
  "prepare_data no_fetch script_data hippocampus_fs = Inr (hippocampus_data1, hippocampus_fs)"
  by (simp add: prepare_data_unfold hippocampus_listing hippocampus_data1_def
      training_subject_def hippocampus_subject_def)

lemma seeded_perm: "rot_randperm (seed_gen 4294967295) 3 = ([2, 1, 0], 4294967296)"
  by (simp add: rot_randperm_def seed_gen_def upt_3 rotate_conv_mod [of 4294967295])

lemma hippocampus_split:
  "setup_split rot_randperm hippocampus_data1 (seed_gen 4294967295) =
     Inr ((\<lparr>dataset = [hippocampus_subject ''hippocampus_001.nii.gz'',
                         hippocampus_subject ''hippocampus_003.nii.gz'',
                         hippocampus_subject ''hippocampus_004.nii.gz''], indices = [2, 1]\<rparr>,
           \<lparr>dataset = [hippocampus_subject ''hippocampus_001.nii.gz'',
                         hippocampus_subject ''hippocampus_003.nii.gz'',
                         hippocampus_subject ''hippocampus_004.nii.gz''], indices = [0]\<rparr>),
          4294967296)"
  using seeded_perm
  by (simp add: setup_split_def hippocampus_data1_def script_data_def init_def
      num_train_3 Let_def random_split_def py_slice_def slice_bound_def)

lemma hippocampus_preprocess:
  "get_preprocessing_transform example_spatial_shape hippocampus_data1 =
     Inr (Compose [RescaleIntensity (- 1) 1, CropOrPad (36, 48, 35), EnsureShapeMultiple 8, OneHot])"
  by (simp add: get_preprocessing_transform_def get_max_shape_def hippocampus_data1_def
      hippocampus_subject_def example_spatial_shape_def test_subject_def)

lemma hippocampus_setup:
  "\<exists>data. datamodule_setup rot_randperm example_spatial_shape hippocampus_data1 (seed_gen 4294967295)
             = Inr (data, 4294967296)
        \<and> map_option ds_subjects (train_set data) =
            Some [hippocampus_subject ''hippocampus_004.nii.gz'',
                  hippocampus_subject ''hippocampus_003.nii.gz'']
        \<and> map_option ds_subjects (val_set data) =
            Some [hippocampus_subject ''hippocampus_001.nii.gz'']"
  by (simp add: datamodule_setup_def hippocampus_split hippocampus_preprocess Let_def
      SubjectsDataset_def subset_items_def)
     (simp add: hippocampus_data1_def SubjectsDataset_def)

lemma hippocampus_run:
  "\<exists>data. script_run seed_gen rot_randperm example_spatial_shape no_fetch g0 hippocampus_fs
             = Inr (data, 4294967296, hippocampus_fs)
        \<and> map_option ds_subjects (train_set data) =
            Some [hippocampus_subject ''hippocampus_004.nii.gz'',
                  hippocampus_subject ''hippocampus_003.nii.gz'']
        \<and> map_option ds_subjects (val_set data) =
            Some [hippocampus_subject ''hippocampus_001.nii.gz'']"
proof -
  have s: "set_determinism seed_gen g0 = seed_gen 4294967295"
    by (simp add: set_determinism_def NP_MAX_def)
  from hippocampus_setup obtain data where
    "datamodule_setup rot_randperm example_spatial_shape hippocampus_data1 (seed_gen 4294967295)
       = Inr (data, 4294967296)"
    "map_option ds_subjects (train_set data) =
            Some [hippocampus_subject ''hippocampus_004.nii.gz'',
                  hippocampus_subject ''hippocampus_003.nii.gz'']"
    "map_option ds_subjects (val_set data) =
            Some [hippocampus_subject ''hippocampus_001.nii.gz'']"
    by blast
  then show ?thesis
    by (intro exI [of _ data]) (simp add: script_run_def Let_def s hippocampus_prepare_data)
qed

text \<open>
  Claim C4, as the code has it. The split in \<open>setup\<close> passes no seed and no generator:
  its permutation comes from the global generator, so the partition depends on the
  state that generator is in (in the example, states 0 and 1 of a counting generator
  give different partitions of the same three subjects). The script puts the generator
  into the state of a fixed seed before anything else. So when a run of the script
  arrives at a data module, its training and validation subjects are the split drawn
  in the state of that seed from the subjects \<open>prepare_data\<close> found, and a run from any
  other starting state of the generator arrives at the same data module, the partition
  included.
\<close>

theorem split_seeded_by_script:
  assumes "script_run manual_seed randperm spatial_shape fetch g1 fs = Inr (data, g', fs')"
  shows "script_run manual_seed randperm spatial_shape fetch g2 fs = Inr (data, g', fs')
       \<and> (\<exists>data1 train val.
             prepare_data fetch script_data fs = Inr (data1, fs')
           \<and> setup_split randperm data1 (manual_seed (2 ^ 32 - 1)) = Inr ((train, val), g')
           \<and> map_option ds_subjects (train_set data) = Some (subset_items train)
           \<and> map_option ds_subjects (val_set data) = Some (subset_items val))
       \<and> map_sum id fst (setup_split rot_randperm example_dm3 0)
           \<noteq> map_sum id fst (setup_split rot_randperm example_dm3 (Suc 0))"
proof -
  have a: "script_run manual_seed randperm spatial_shape fetch g2 fs = Inr (data, g', fs')"
    using assms script_run_seeded [of manual_seed randperm spatial_shape fetch g1 fs g2] by simp
  have b: "\<exists>data1 train val.
             prepare_data fetch script_data fs = Inr (data1, fs')
           \<and> setup_split randperm data1 (manual_seed (2 ^ 32 - 1)) = Inr ((train, val), g')
           \<and> map_option ds_subjects (train_set data) = Some (subset_items train)
           \<and> map_option ds_subjects (val_set data) = Some (subset_items val)"
    using script_run_InrD [OF assms] by blast
  have c: "map_sum id fst (setup_split rot_randperm example_dm3 0)
           \<noteq> map_sum id fst (setup_split rot_randperm example_dm3 (Suc 0))"
    by (simp add: example_split example_split_state_1)
  show ?thesis using a b c by blast
qed

theorem split_seeded_by_script_witness:
  "\<exists>data g'.
      script_run seed_gen rot_randperm example_spatial_shape no_fetch 0 hippocampus_fs
        = Inr (data, g', hippocampus_fs)
    \<and> script_run seed_gen rot_randperm example_spatial_shape no_fetch 7 hippocampus_fs
        = Inr (data, g', hippocampus_fs)
    \<and> map_option ds_subjects (train_set data) =
        Some [hippocampus_subject ''hippocampus_004.nii.gz'',
              hippocampus_subject ''hippocampus_003.nii.gz'']
    \<and> map_option ds_subjects (val_set data) =
        Some [hippocampus_subject ''hippocampus_001.nii.gz'']
    \<and> (\<exists>train val.
          setup_split rot_randperm hippocampus_data1 (seed_gen (2 ^ 32 - 1)) = Inr ((train, val), g')
        \<and> map_option ds_subjects (train_set data) = Some (subset_items train)
        \<and> map_option ds_subjects (val_set data) = Some (subset_items val))"
proof -
  from hippocampus_run [of 0] obtain data where
    h: "script_run seed_gen rot_randperm example_spatial_shape no_fetch 0 hippocampus_fs
          = Inr (data, 4294967296, hippocampus_fs)"
    and t: "map_option ds_subjects (train_set data) =
            Some [hippocampus_subject ''hippocampus_004.nii.gz'',
                  hippocampus_subject ''hippocampus_003.nii.gz'']"
    and v: "map_option ds_subjects (val_set data) =
            Some [hippocampus_subject ''hippocampus_001.nii.gz'']"
    by blast
  note th = split_seeded_by_script [OF h, of 7]
  from th have r2: "script_run seed_gen rot_randperm example_spatial_shape no_fetch 7 hippocampus_fs
          = Inr (data, 4294967296, hippocampus_fs)" by blast
  from th obtain data1 train val where
    p: "prepare_data no_fetch script_data hippocampus_fs = Inr (data1, hippocampus_fs)"
    and sp: "setup_split rot_randperm data1 (seed_gen (2 ^ 32 - 1)) = Inr ((train, val), 4294967296)"
      "map_option ds_subjects (train_set data) = Some (subset_items train)"
      "map_option ds_subjects (val_set data) = Some (subset_items val)"
    by blast
  from p have "data1 = hippocampus_data1" by (simp add: hippocampus_prepare_data)
  then have "\<exists>train val.
          setup_split rot_randperm hippocampus_data1 (seed_gen (2 ^ 32 - 1))
            = Inr ((train, val), 4294967296)
        \<and> map_option ds_subjects (train_set data) = Some (subset_items train)
        \<and> map_option ds_subjects (val_set data) = Some (subset_items val)"
    using sp by blast
  then show ?thesis using h r2 t v by blast
qed

text \<open>
  A run of the script over a dataset directory with three matched pairs arrives at a
  partition, and no two runs of the script over the same directory contents differ in
  the data module they arrive at, whatever the generator, its seeding function and the
  states the two processes start in.
\<close>

theorem script_runs_agree_counterexample:
  "(\<exists>data g' fs'.
      script_run seed_gen rot_randperm example_spatial_shape no_fetch 0 hippocampus_fs
        = Inr (data, g', fs')
    \<and> map_option ds_subjects (train_set data) =
        Some [hippocampus_subject ''hippocampus_004.nii.gz'',
              hippocampus_subject ''hippocampus_003.nii.gz'']
    \<and> map_option ds_subjects (val_set data) =
        Some [hippocampus_subject ''hippocampus_001.nii.gz''])
   \<and> \<not> (\<exists>(manual_seed :: int \<Rightarrow> nat) randperm spatial_shape fetch fs g1 g2.
          script_run manual_seed randperm spatial_shape fetch g1 fs
            \<noteq> script_run manual_seed randperm spatial_shape fetch g2 fs)"
proof
  show "\<exists>data g' fs'.
      script_run seed_gen rot_randperm example_spatial_shape no_fetch 0 hippocampus_fs
        = Inr (data, g', fs')
    \<and> map_option ds_subjects (train_set data) =
        Some [hippocampus_subject ''hippocampus_004.nii.gz'',
              hippocampus_subject ''hippocampus_003.nii.gz'']
    \<and> map_option ds_subjects (val_set data) =
        Some [hippocampus_subject ''hippocampus_001.nii.gz'']"
    using hippocampus_run [of 0] by blast
  show "\<not> (\<exists>(manual_seed :: int \<Rightarrow> nat) randperm spatial_shape fetch fs g1 g2.
          script_run manual_seed randperm spatial_shape fetch g1 fs
            \<noteq> script_run manual_seed randperm spatial_shape fetch g2 fs)"
  proof
    assume "\<exists>(manual_seed :: int \<Rightarrow> nat) randperm spatial_shape fetch fs g1 g2.
        script_run manual_seed randperm spatial_shape fetch g1 fs
          \<noteq> script_run manual_seed randperm spatial_shape fetch g2 fs"
    then obtain manual_seed :: "int \<Rightarrow> nat" and randperm spatial_shape fetch fs g1 g2
      where "script_run manual_seed randperm spatial_shape fetch g1 fs
               \<noteq> script_run manual_seed randperm spatial_shape fetch g2 fs"
      by blast
    then show False
      using script_run_seeded [of manual_seed randperm spatial_shape fetch g1 fs g2] by simp
  qed
qed

end
